theory Spec2Isabelle
  imports Complex_Main "HOL-Library.Sublist" "HOL-Library.Monad_Syntax"
begin

section \<open>JavaScript strings and arrays\<close>

text \<open>
  A JavaScript string is modelled as a \<^typ>\<open>string\<close>: one \<^typ>\<open>char\<close> per UTF-16 code
  unit, for the code units U+0000 to U+00FF. The numbers of the order data (quantities,
  prices, totals) are IEEE doubles, defined in the section on numbers. The lengths and
  distances of the matcher are naturals, and its similarity scores, one minus a quotient
  of two of them, are exact rationals.
\<close>

definition isWhitespace :: "char \<Rightarrow> bool" where
  "isWhitespace c = (c \<in> set [CHR 0x09, CHR 0x0A, CHR 0x0B, CHR 0x0C, CHR 0x0D, CHR 0x20, CHR 0xA0])"

definition isDigit :: "char \<Rightarrow> bool" where
  "isDigit c = (c \<in> set ''0123456789'')"

definition lowerChar :: "char \<Rightarrow> char" where
  "lowerChar c =
     (let n = (of_char c :: nat)
      in if (65 \<le> n \<and> n \<le> 90) \<or> (192 \<le> n \<and> n \<le> 222 \<and> n \<noteq> 215)
         then char_of (n + 32) else c)"

definition toLowerCase :: "string \<Rightarrow> string" where
  "toLowerCase s = map lowerChar s"

text \<open>\<open>a.includes(b)\<close>: \<open>b\<close> occurs in \<open>a\<close> as a contiguous run.\<close>

primrec includesStr :: "string \<Rightarrow> string \<Rightarrow> bool" where
  "includesStr [] b = (b = [])"
| "includesStr (c # cs) b = (prefix b (c # cs) \<or> includesStr cs b)"

text \<open>\<open>s.trim()\<close>.\<close>

definition trim :: "string \<Rightarrow> string" where
  "trim s = rev (dropWhile isWhitespace (rev (dropWhile isWhitespace s)))"

text \<open>
  \<open>s.split(sep)\<close> for a string separator: the pieces between the leftmost,
  non-overlapping occurrences of \<open>sep\<close>. \<open>splitFrom sep s cur\<close> scans \<open>s\<close> with the
  piece \<open>cur\<close> in progress.
\<close>

function splitFrom :: "string \<Rightarrow> string \<Rightarrow> string \<Rightarrow> string list" where
  "splitFrom sep s cur =
     (if sep \<noteq> [] \<and> prefix sep s then cur # splitFrom sep (drop (length sep) s) []
      else (case s of [] \<Rightarrow> [cur] | c # cs \<Rightarrow> splitFrom sep cs (cur @ [c])))"
  by pat_completeness auto
termination
  by (relation "measure (\<lambda>(sep, s, cur). length s)") (auto simp: prefix_def)

definition split :: "string \<Rightarrow> string \<Rightarrow> string list" where
  "split s sep = (if sep = [] then map (\<lambda>c. [c]) s else splitFrom sep s [])"

text \<open>\<open>s.split(/\s+/)\<close>: the pieces between the maximal runs of whitespace.\<close>

function splitWsFrom :: "string \<Rightarrow> string \<Rightarrow> string list" where
  "splitWsFrom [] cur = [cur]"
| "splitWsFrom (c # cs) cur =
     (if isWhitespace c then cur # splitWsFrom (dropWhile isWhitespace cs) []
      else splitWsFrom cs (cur @ [c]))"
  by pat_completeness auto
termination
  by (relation "measure (\<lambda>(s, cur). length s)") (auto simp: less_Suc_eq_le length_dropWhile_le)

definition splitWhitespace :: "string \<Rightarrow> string list" where
  "splitWhitespace s = splitWsFrom s []"

text \<open>\<open>xs.join(sep)\<close>.\<close>

fun join :: "string \<Rightarrow> string list \<Rightarrow> string" where
  "join sep [] = []"
| "join sep [x] = x"
| "join sep (x # y # ys) = x @ sep @ join sep (y # ys)"

text \<open>\<open>s.slice(-k)\<close>: the last \<open>k\<close> code units, the whole string when it is shorter.\<close>

definition sliceLast :: "nat \<Rightarrow> string \<Rightarrow> string" where
  "sliceLast k s = drop (length s - k) s"

text \<open>\<open>n.toString()\<close> for a natural number: its decimal digits.\<close>

definition digitChar :: "nat \<Rightarrow> char" where
  "digitChar d = ''0123456789'' ! (d mod 10)"

function natToString :: "nat \<Rightarrow> string" where
  "natToString n = (if n < 10 then [digitChar n] else natToString (n div 10) @ [digitChar (n mod 10)])"
  by pat_completeness auto
termination
  by (relation "measure id") auto

text \<open>
  Arrays as lists. A read beyond the end gives \<open>undefined\<close> in JavaScript and a write
  beyond the end leaves holes; both are the value \<open>None\<close> here, so that a computation
  that returns \<open>Some\<close> never met either. A write at the index \<open>length\<close> appends.
\<close>

definition arr_get :: "'a list \<Rightarrow> nat \<Rightarrow> 'a option" where
  "arr_get xs i = (if i < length xs then Some (xs ! i) else None)"

definition arr_set :: "'a list \<Rightarrow> nat \<Rightarrow> 'a \<Rightarrow> 'a list option" where
  "arr_set xs i v =
     (if i < length xs then Some (xs[i := v])
      else if i = length xs then Some (xs @ [v])
      else None)"

text \<open>\<open>matrix[i][j]\<close> and \<open>matrix[i][j] = v\<close> on an array of rows.\<close>

definition mat_get :: "nat list list \<Rightarrow> nat \<Rightarrow> nat \<Rightarrow> nat option" where
  "mat_get matrix i j = do { row \<leftarrow> arr_get matrix i; arr_get row j }"

definition mat_set :: "nat list list \<Rightarrow> nat \<Rightarrow> nat \<Rightarrow> nat \<Rightarrow> nat list list option" where
  "mat_set matrix i j v =
     do { row \<leftarrow> arr_get matrix i; row' \<leftarrow> arr_set row j v; arr_set matrix i row' }"

text \<open>A counting \<open>for\<close> loop over the indices \<open>ns\<close>, threading the state \<open>s\<close>.\<close>

fun forEach :: "nat list \<Rightarrow> (nat \<Rightarrow> 's \<Rightarrow> 's option) \<Rightarrow> 's \<Rightarrow> 's option" where
  "forEach [] body s = Some s"
| "forEach (n # ns) body s = (case body n s of None \<Rightarrow> None | Some s' \<Rightarrow> forEach ns body s')"

section \<open>JavaScript numbers\<close>

text \<open>
  A number of the order data is an IEEE 754 double: \<open>Finite x\<close> is the double whose
  exact value is the rational \<open>x\<close>, beside the two infinities and NaN. The two zeros are
  one value, \<open>Finite 0\<close>: the code divides only by the literal 100, so it never observes
  the sign of a zero.
\<close>

datatype number = Finite rat | PosInf | NegInf | NaN

text \<open>
  The binary exponent of a positive rational \<open>x\<close>: the integer \<open>e\<close> with
  \<open>2 ^ e \<le> x < 2 ^ (e + 1)\<close>, found by halving from above 1 and by doubling from below 1.
\<close>

function exponentUp :: "rat \<Rightarrow> int" where
  "exponentUp x = (if 2 \<le> x then exponentUp (x / 2) + 1 else 0)"
  by pat_completeness auto
termination
proof (relation "measure (\<lambda>x. nat \<lfloor>x\<rfloor>)")
  show "wf (measure (\<lambda>x. nat \<lfloor>x\<rfloor>))" by simp
next
  fix x :: rat assume x: "2 \<le> x"
  have "x < 2 * of_int \<lfloor>x\<rfloor>" using x by linarith
  then have "\<lfloor>x / 2\<rfloor> < \<lfloor>x\<rfloor>" by (simp add: floor_less_iff)
  moreover have "0 < \<lfloor>x\<rfloor>" using x by linarith
  ultimately show "(x / 2, x) \<in> measure (\<lambda>x. nat \<lfloor>x\<rfloor>)" by simp
qed

function exponentDown :: "rat \<Rightarrow> int" where
  "exponentDown x = (if 0 < x \<and> x < 1 then exponentDown (2 * x) - 1 else 0)"
  by pat_completeness auto
termination
proof (relation "measure (\<lambda>x. nat \<lfloor>1 / x\<rfloor>)")
  show "wf (measure (\<lambda>x. nat \<lfloor>1 / x\<rfloor>))" by simp
next
  fix x :: rat assume x: "0 < x \<and> x < 1"
  define t where "t = 1 / x"
  have t: "1 < t" using x by (simp add: t_def)
  then have "1 \<le> \<lfloor>t\<rfloor>" by simp
  then have one: "(1::rat) \<le> of_int \<lfloor>t\<rfloor>" by (simp only: of_int_1_le_iff)
  have "t < of_int \<lfloor>t\<rfloor> + 1" by linarith
  with one have "t < 2 * of_int \<lfloor>t\<rfloor>" by linarith
  then have less: "\<lfloor>t / 2\<rfloor> < \<lfloor>t\<rfloor>" by (simp add: floor_less_iff)
  have pos: "0 < \<lfloor>t\<rfloor>" using t by simp
  have eq: "1 / (2 * x) = t / 2" by (simp add: t_def)
  have "nat \<lfloor>t / 2\<rfloor> < nat \<lfloor>t\<rfloor>" using less pos by simp
  then show "(2 * x, x) \<in> measure (\<lambda>x. nat \<lfloor>1 / x\<rfloor>)"
    unfolding in_measure eq t_def .
qed

definition exponentOf :: "rat \<Rightarrow> int" where
  "exponentOf x = (if 1 \<le> x then exponentUp x else exponentDown x)"

text \<open>The nearest integer, a tie going to the even one.\<close>

definition roundHalfEven :: "rat \<Rightarrow> int" where
  "roundHalfEven t =
     (let f = \<lfloor>t\<rfloor>; d = t - of_int f
      in if d < 1 / 2 then f else if 1 / 2 < d then f + 1 else if even f then f else f + 1)"

text \<open>
  The double nearest to a rational, a tie going to the even significand: a significand
  of 53 bits, so the doubles with the exponent \<open>e\<close> are the multiples of \<open>2 ^ (e - 52)\<close>;
  the least exponent is \<open>-1022\<close>, which the subnormal numbers share; a result of
  magnitude \<open>2 ^ 1024\<close> or more is an infinity. Every arithmetic operation of the
  language returns the exact result rounded in this way, and a decimal literal of the
  source denotes the double nearest to it.
\<close>

definition toDouble :: "rat \<Rightarrow> number" where
  "toDouble x =
     (if x = 0 then Finite 0
      else let e = max (exponentOf \<bar>x\<bar>) (- 1022);
               q = power_int 2 (e - 52);
               y = of_int (roundHalfEven (x / q)) * q
           in if power_int 2 1024 \<le> \<bar>y\<bar> then (if 0 < x then PosInf else NegInf) else Finite y)"

text \<open>\<open>x + y\<close>, \<open>x * y\<close> and \<open>x / y\<close> on numbers.\<close>

fun jsAdd :: "number \<Rightarrow> number \<Rightarrow> number" where
  "jsAdd (Finite x) (Finite y) = toDouble (x + y)"
| "jsAdd NaN _ = NaN"
| "jsAdd _ NaN = NaN"
| "jsAdd PosInf NegInf = NaN"
| "jsAdd NegInf PosInf = NaN"
| "jsAdd PosInf _ = PosInf"
| "jsAdd _ PosInf = PosInf"
| "jsAdd NegInf _ = NegInf"
| "jsAdd _ NegInf = NegInf"

definition signedInf :: "bool \<Rightarrow> number" where
  "signedInf positive = (if positive then PosInf else NegInf)"

fun jsMul :: "number \<Rightarrow> number \<Rightarrow> number" where
  "jsMul (Finite x) (Finite y) = toDouble (x * y)"
| "jsMul NaN _ = NaN"
| "jsMul _ NaN = NaN"
| "jsMul (Finite x) PosInf = (if x = 0 then NaN else signedInf (0 < x))"
| "jsMul (Finite x) NegInf = (if x = 0 then NaN else signedInf (x < 0))"
| "jsMul PosInf (Finite y) = (if y = 0 then NaN else signedInf (0 < y))"
| "jsMul NegInf (Finite y) = (if y = 0 then NaN else signedInf (y < 0))"
| "jsMul PosInf PosInf = PosInf"
| "jsMul PosInf NegInf = NegInf"
| "jsMul NegInf PosInf = NegInf"
| "jsMul NegInf NegInf = PosInf"

fun jsDiv :: "number \<Rightarrow> number \<Rightarrow> number" where
  "jsDiv (Finite x) (Finite y) =
     (if y = 0 then (if x = 0 then NaN else signedInf (0 < x)) else toDouble (x / y))"
| "jsDiv NaN _ = NaN"
| "jsDiv _ NaN = NaN"
| "jsDiv (Finite x) PosInf = Finite 0"
| "jsDiv (Finite x) NegInf = Finite 0"
| "jsDiv PosInf (Finite y) = signedInf (0 \<le> y)"
| "jsDiv NegInf (Finite y) = signedInf (y < 0)"
| "jsDiv PosInf PosInf = NaN"
| "jsDiv PosInf NegInf = NaN"
| "jsDiv NegInf PosInf = NaN"
| "jsDiv NegInf NegInf = NaN"

text \<open>
  \<open>parseInt(ds, 10)\<close> on a run of decimal digits: the number for the integer that the
  digits write, which is that integer when it is below \<open>2 ^ 53\<close>, the double nearest
  to it beyond, and infinity when that is \<open>2 ^ 1024\<close> or more. (Beyond 20 significant
  digits the language lets an implementation read the further digits as zeros; the
  integer is taken as written here.)
\<close>

definition digitValue :: "char \<Rightarrow> nat" where
  "digitValue c = of_char c - 48"

definition digitsValue :: "string \<Rightarrow> int" where
  "digitsValue ds = foldl (\<lambda>n c. 10 * n + int (digitValue c)) 0 ds"

definition parseInt :: "string \<Rightarrow> number" where
  "parseInt ds = toDouble (of_int (digitsValue ds))"

section \<open>messageParser: menu data\<close>

text \<open>
  The records of the menu keep the decimal literals of the source; \<open>toDouble\<close> is
  applied where the code reads a price.
\<close>

record Modifier =
  name :: string
  priceModifier :: rat

record MenuItem =
  itemId :: string
  itemName :: string
  basePrice :: rat
  itemSizes :: "Modifier list"
  milkOptions :: "Modifier list"
  aliases :: "string list"

record OrderItem =
  menuItem :: MenuItem
  quantity :: number
  sizeName :: string
  milkType :: string
  itemTotal :: number

record ParsedOrder =
  success :: bool
  parsedItems :: "OrderItem list option"
  error :: "string option"

text \<open>
  The dictionaries are association lists in the order of \<open>Object.entries\<close>, which for
  these keys is the order of declaration.
\<close>

definition cappuccino :: MenuItem where
  "cappuccino =
     \<lparr>itemId = ''cap1'', itemName = ''Cappuccino'', basePrice = 7 / 2,
      itemSizes = [\<lparr>name = ''Small'', priceModifier = - (1 / 2)\<rparr>,
                   \<lparr>name = ''Medium'', priceModifier = 0\<rparr>,
                   \<lparr>name = ''Large'', priceModifier = 1 / 2\<rparr>],
      milkOptions = [\<lparr>name = ''Whole Milk'', priceModifier = 0\<rparr>,
                     \<lparr>name = ''Oat Milk'', priceModifier = 1 / 2\<rparr>,
                     \<lparr>name = ''Almond Milk'', priceModifier = 1 / 2\<rparr>],
      aliases = [''cap'', ''capp'', ''cappucino'', ''capuccino'']\<rparr>"

definition latte :: MenuItem where
  "latte =
     \<lparr>itemId = ''lat1'', itemName = ''Latte'', basePrice = 4,
      itemSizes = [\<lparr>name = ''Small'', priceModifier = - (1 / 2)\<rparr>,
                   \<lparr>name = ''Medium'', priceModifier = 0\<rparr>,
                   \<lparr>name = ''Large'', priceModifier = 1 / 2\<rparr>],
      milkOptions = [\<lparr>name = ''Whole Milk'', priceModifier = 0\<rparr>,
                     \<lparr>name = ''Oat Milk'', priceModifier = 1 / 2\<rparr>,
                     \<lparr>name = ''Almond Milk'', priceModifier = 1 / 2\<rparr>],
      aliases = [''lat'', ''cafe latte'', ''coffee latte'']\<rparr>"

definition menuItems :: "(string \<times> MenuItem) list" where
  "menuItems = [(''cappuccino'', cappuccino), (''latte'', latte)]"

definition sizes :: "(string \<times> Modifier) list" where
  "sizes =
     [(''small'', \<lparr>name = ''Small'', priceModifier = - (1 / 2)\<rparr>),
      (''medium'', \<lparr>name = ''Medium'', priceModifier = 0\<rparr>),
      (''large'', \<lparr>name = ''Large'', priceModifier = 1 / 2\<rparr>),
      (''s'', \<lparr>name = ''Small'', priceModifier = - (1 / 2)\<rparr>),
      (''m'', \<lparr>name = ''Medium'', priceModifier = 0\<rparr>),
      (''l'', \<lparr>name = ''Large'', priceModifier = 1 / 2\<rparr>),
      (''regular'', \<lparr>name = ''Medium'', priceModifier = 0\<rparr>),
      (''big'', \<lparr>name = ''Large'', priceModifier = 1 / 2\<rparr>),
      (''standard'', \<lparr>name = ''Medium'', priceModifier = 0\<rparr>)]"

definition milkTypes :: "(string \<times> Modifier) list" where
  "milkTypes =
     [(''whole milk'', \<lparr>name = ''Whole Milk'', priceModifier = 0\<rparr>),
      (''oat milk'', \<lparr>name = ''Oat Milk'', priceModifier = 1 / 2\<rparr>),
      (''almond milk'', \<lparr>name = ''Almond Milk'', priceModifier = 1 / 2\<rparr>),
      (''whole'', \<lparr>name = ''Whole Milk'', priceModifier = 0\<rparr>),
      (''oat'', \<lparr>name = ''Oat Milk'', priceModifier = 1 / 2\<rparr>),
      (''almond'', \<lparr>name = ''Almond Milk'', priceModifier = 1 / 2\<rparr>),
      (''regular milk'', \<lparr>name = ''Whole Milk'', priceModifier = 0\<rparr>),
      (''regular'', \<lparr>name = ''Whole Milk'', priceModifier = 0\<rparr>),
      (''normal milk'', \<lparr>name = ''Whole Milk'', priceModifier = 0\<rparr>),
      (''normal'', \<lparr>name = ''Whole Milk'', priceModifier = 0\<rparr>)]"

section \<open>messageParser.calculateSimilarity\<close>

text \<open>The first loop: \<open>matrix[i] = [i]\<close> for \<open>i = 0 .. a.length\<close>.\<close>

definition initRows :: "string \<Rightarrow> nat list list option" where
  "initRows a = forEach [0..<Suc (length a)] (\<lambda>i matrix. arr_set matrix i [i]) []"

text \<open>The second loop: \<open>matrix[0][j] = j\<close> for \<open>j = 0 .. b.length\<close>.\<close>

definition initFirstRow :: "string \<Rightarrow> nat list list \<Rightarrow> nat list list option" where
  "initFirstRow b matrix = forEach [0..<Suc (length b)] (\<lambda>j m. mat_set m 0 j j) matrix"

text \<open>
  The body of the nested loop. \<open>a[i - 1] === b[j - 1]\<close> compares two code units, or
  \<open>undefined\<close> out of range.
\<close>

definition fillCell :: "string \<Rightarrow> string \<Rightarrow> nat \<Rightarrow> nat \<Rightarrow> nat list list \<Rightarrow> nat list list option" where
  "fillCell a b i j matrix =
     do {
       let cost = (if arr_get a (i - 1) = arr_get b (j - 1) then 0 else 1);
       deletion \<leftarrow> mat_get matrix (i - 1) j;
       insertion \<leftarrow> mat_get matrix i (j - 1);
       substitution \<leftarrow> mat_get matrix (i - 1) (j - 1);
       mat_set matrix i j (min (deletion + 1) (min (insertion + 1) (substitution + cost)))
     }"

text \<open>The inner loop over \<open>j = 1 .. b.length\<close> and the outer loop over \<open>i = 1 .. a.length\<close>.\<close>

definition fillRow :: "string \<Rightarrow> string \<Rightarrow> nat \<Rightarrow> nat list list \<Rightarrow> nat list list option" where
  "fillRow a b i matrix = forEach [1..<Suc (length b)] (fillCell a b i) matrix"

definition fillMatrix :: "string \<Rightarrow> string \<Rightarrow> nat list list \<Rightarrow> nat list list option" where
  "fillMatrix a b matrix = forEach [1..<Suc (length a)] (fillRow a b) matrix"

definition levenshteinMatrix :: "string \<Rightarrow> string \<Rightarrow> nat option" where
  "levenshteinMatrix a b =
     do {
       m0 \<leftarrow> initRows a;
       m1 \<leftarrow> initFirstRow b m0;
       m2 \<leftarrow> fillMatrix a b m1;
       mat_get m2 (length a) (length b)
     }"

text \<open>
  The score is \<open>None\<close> where the JavaScript would not give a finite number (a cell read
  as \<open>undefined\<close>, a division by a zero length).
\<close>

definition calculateSimilarity :: "string \<Rightarrow> string \<Rightarrow> rat option" where
  "calculateSimilarity str1 str2 =
     (let a = toLowerCase str1; b = toLowerCase str2
      in if a = b then Some 1
         else if includesStr a b \<or> includesStr b a then Some (9 / 10)
         else do {
           distance \<leftarrow> levenshteinMatrix a b;
           let maxLength = max (length a) (length b);
           if maxLength = 0 then None
           else Some (1 - of_nat distance / of_nat maxLength)
         })"

section \<open>messageParser.findBestMatch\<close>

record 'v Match =
  key :: string
  item :: 'v
  score :: rat

text \<open>
  One comparison \<open>if (score > bestScore) { bestMatch = ...; bestScore = score }\<close> on the
  pair \<open>(bestMatch, bestScore)\<close>; a score that is not a number compares false.
\<close>

definition considerScore :: "string \<Rightarrow> 'v \<Rightarrow> rat option \<Rightarrow> 'v Match option \<times> rat \<Rightarrow> 'v Match option \<times> rat" where
  "considerScore k v sc st =
     (case sc of
        None \<Rightarrow> st
      | Some s \<Rightarrow> if s > snd st then (Some \<lparr>key = k, item = v, score = s\<rparr>, s) else st)"

text \<open>
  The body of the loop over the dictionary's entries. \<open>aliasesOf v\<close> is the entry's
  \<open>aliases\<close> field, \<open>None\<close> where the entry has none.
\<close>

definition aliasStep :: "string \<Rightarrow> string \<Rightarrow> 'v \<Rightarrow> 'v Match option \<times> rat \<Rightarrow> string \<Rightarrow> 'v Match option \<times> rat" where
  "aliasStep term k v st alias = considerScore k v (calculateSimilarity term alias) st"

definition entryStep :: "string \<Rightarrow> ('v \<Rightarrow> string list option) \<Rightarrow> 'v Match option \<times> rat \<Rightarrow> string \<times> 'v \<Rightarrow> 'v Match option \<times> rat" where
  "entryStep term aliasesOf st e =
     (let k = fst e; v = snd e;
          st1 = considerScore k v (calculateSimilarity term k) st
      in case aliasesOf v of
           None \<Rightarrow> st1
         | Some als \<Rightarrow> foldl (aliasStep term k v) st1 als)"

definition findBestMatch :: "string \<Rightarrow> (string \<times> 'v) list \<Rightarrow> ('v \<Rightarrow> string list option) \<Rightarrow> rat \<Rightarrow> 'v Match option" where
  "findBestMatch term dictionary aliasesOf threshold =
     fst (foldl (entryStep term aliasesOf) (None, threshold) dictionary)"

text \<open>The default of the parameter \<open>threshold\<close>, and the \<open>aliases\<close> of the two kinds of entry.\<close>

definition defaultThreshold :: rat where
  "defaultThreshold = 7 / 10"

definition menuAliases :: "MenuItem \<Rightarrow> string list option" where
  "menuAliases v = Some (aliases v)"

definition noAliases :: "Modifier \<Rightarrow> string list option" where
  "noAliases v = None"

section \<open>messageParser.splitOrderItems\<close>

definition separators :: "string list" where
  "separators = ['','', '' and '', '';'', ''+'']"

definition splitStep :: "string list \<Rightarrow> string \<Rightarrow> string list" where
  "splitStep texts separator =
     concat (map (\<lambda>t. if includesStr t separator
                        then filter (\<lambda>i. i \<noteq> []) (map trim (split t separator))
                        else [t]) texts)"

definition splitOrderItems :: "string \<Rightarrow> string list" where
  "splitOrderItems text = foldl splitStep [text] separators"

section \<open>messageParser.parseOrderItem\<close>

text \<open>
  The loops \<open>for (const word of words) { const match = ...; if (match) { ...; break } }\<close>:
  the first word with a match.
\<close>

fun firstWordMatch :: "(string \<Rightarrow> 'v Match option) \<Rightarrow> string list \<Rightarrow> 'v Match option" where
  "firstWordMatch f [] = None"
| "firstWordMatch f (w # ws) = (case f w of Some m \<Rightarrow> Some m | None \<Rightarrow> firstWordMatch f ws)"

definition matchMenuWord :: "string \<Rightarrow> MenuItem Match option" where
  "matchMenuWord word =
     (if length word < 3 then None
      else findBestMatch word menuItems menuAliases defaultThreshold)"

definition matchSizeWord :: "string \<Rightarrow> Modifier Match option" where
  "matchSizeWord word = findBestMatch word sizes noAliases defaultThreshold"

definition matchMilkWord :: "string \<Rightarrow> Modifier Match option" where
  "matchMilkWord word = findBestMatch word milkTypes noAliases defaultThreshold"

definition containsKey :: "string \<Rightarrow> string \<times> 'v \<Rightarrow> bool" where
  "containsKey lowerText e = includesStr lowerText (fst e)"

definition itemNotFoundError :: string where
  "itemNotFoundError =
     ''Menu item not found. Available items: '' @ join '', '' (map (itemName \<circ> snd) menuItems)"

definition itemParseError :: string where
  "itemParseError = ''Failed to parse this item. Please try a simpler format.''"

text \<open>
  The result is \<open>Inr\<close> the order item for \<open>{success: true, item}\<close> and \<open>Inl\<close> the message
  for \<open>{success: false, error}\<close>. An object of \<open>milkTypes\<close> is identified by its key, so
  that \<open>milkType === messageParser.milkTypes['whole milk']\<close> compares keys. The branch
  to \<open>itemParseError\<close> is the \<open>catch\<close>, reached where a default modifier is missing from
  its dictionary.
\<close>

definition parseOrderItem :: "string \<Rightarrow> string + OrderItem" where
  "parseOrderItem text =
     (let lowerText = toLowerCase text;
          digits = takeWhile isDigit lowerText;
          quantity = (if digits \<noteq> [] then parseInt digits else Finite 1);
          words = splitWhitespace lowerText;
          menuItem =
            (case firstWordMatch matchMenuWord words of
               Some m \<Rightarrow> Some (item m)
             | None \<Rightarrow> map_option snd (find (containsKey lowerText) menuItems))
      in case menuItem of
           None \<Rightarrow> Inl itemNotFoundError
         | Some mi \<Rightarrow>
            (let size =
                   (case firstWordMatch matchSizeWord words of
                      Some m \<Rightarrow> Some (item m)
                    | None \<Rightarrow> map_of sizes ''medium'');
                 milkKey =
                   (case find (containsKey lowerText) milkTypes of
                      Some e \<Rightarrow> fst e
                    | None \<Rightarrow> ''whole milk'');
                 milkKey' =
                   (if milkKey = ''whole milk''
                    then (case firstWordMatch matchMilkWord words of
                            Some m \<Rightarrow> key m
                          | None \<Rightarrow> milkKey)
                    else milkKey)
             in case (size, map_of milkTypes milkKey') of
                  (Some sz, Some milk) \<Rightarrow>
                    (let total = jsAdd (jsAdd (toDouble (basePrice mi)) (toDouble (priceModifier sz)))
                                   (toDouble (priceModifier milk))
                     in Inr \<lparr>menuItem = mi, quantity = quantity, sizeName = name sz,
                             milkType = name milk, itemTotal = jsMul total quantity\<rparr>)
                | _ \<Rightarrow> Inl itemParseError))"

section \<open>messageParser.parseOrder\<close>

text \<open>The loop over the item texts, on the pair \<open>(orderItems, errors)\<close>.\<close>

definition collectItem :: "OrderItem list \<times> string list \<Rightarrow> string \<Rightarrow> OrderItem list \<times> string list" where
  "collectItem acc itemText =
     (case parseOrderItem itemText of
        Inr it \<Rightarrow> (fst acc @ [it], snd acc)
      | Inl e \<Rightarrow> if e \<noteq> [] then (fst acc, snd acc @ [e]) else acc)"

definition parseOrder :: "string \<Rightarrow> ParsedOrder" where
  "parseOrder text =
     (let orderItemTexts = splitOrderItems text
      in if length orderItemTexts = 0
         then \<lparr>success = False, parsedItems = None,
               error = Some ''Please specify at least one item to order.''\<rparr>
         else
           (let acc = foldl collectItem ([], []) orderItemTexts;
                orderItems = fst acc; errors = snd acc
            in if length orderItems = 0
               then \<lparr>success = False, parsedItems = None,
                     error = Some (if length errors > 0
                                   then ''Failed to parse order: '' @ join ''; '' errors
                                   else ''Failed to parse your order. Please try again with a simpler format.'')\<rparr>
               else \<lparr>success = True, parsedItems = Some orderItems, error = None\<rparr>))"

section \<open>orderCalculator\<close>

text \<open>
  \<open>Math.round\<close>: the nearest integer, a tie going towards plus infinity. The result is
  a double: a double of magnitude \<open>2 ^ 52\<close> or more is an integer already, and an
  integer below \<open>2 ^ 53\<close> is a double.
\<close>

fun mathRound :: "number \<Rightarrow> number" where
  "mathRound (Finite x) = Finite (of_int \<lfloor>x + 1 / 2\<rfloor>)"
| "mathRound n = n"

definition roundCurrency :: "number \<Rightarrow> number" where
  "roundCurrency amount = jsDiv (mathRound (jsMul amount (Finite 100))) (Finite 100)"

definition calculateTax :: "number \<Rightarrow> number" where
  "calculateTax subtotal = (let taxRate = toDouble (85 / 1000) in roundCurrency (jsMul subtotal taxRate))"

text \<open>
  \<open>generateOrderId\<close> reads the clock (\<open>Date.now()\<close>, milliseconds since the epoch); the
  value read is the parameter \<open>now\<close>.
\<close>

definition generateOrderId :: "nat \<Rightarrow> string \<Rightarrow> string" where
  "generateOrderId now customerId =
     (let timestamp = sliceLast 6 (natToString now);
          customerSuffix = sliceLast 3 customerId
      in ''ORD-'' @ timestamp @ ''-'' @ customerSuffix)"

text \<open>
  \<open>calculateReadyTime\<close> reads the clock again and renders the instant ten minutes later
  with \<open>toLocaleTimeString\<close>; the rendering, which depends on the host's locale data and
  time zone, is the parameter \<open>fmt\<close>.
\<close>

definition calculateReadyTime :: "(nat \<Rightarrow> string) \<Rightarrow> nat \<Rightarrow> string" where
  "calculateReadyTime fmt now = fmt (now + 10 * 60000)"

record Customer =
  custId :: string
  custName :: string
  username :: "string option"

record Order =
  orderId :: string
  customerId :: string
  customerName :: string
  orderItems :: "OrderItem list"
  subtotal :: number
  tax :: number
  total :: number
  estimatedReady :: string

text \<open>\<open>now1\<close> and \<open>now2\<close> are the two readings of the clock.\<close>

definition createOrder :: "(nat \<Rightarrow> string) \<Rightarrow> nat \<Rightarrow> nat \<Rightarrow> OrderItem list \<Rightarrow> Customer \<Rightarrow> Order" where
  "createOrder fmt now1 now2 its customer =
     (let subtotal = foldl (\<lambda>total it. roundCurrency (jsAdd total (itemTotal it))) (Finite 0) its;
          tax = calculateTax subtotal;
          total = roundCurrency (jsAdd subtotal tax)
      in \<lparr>orderId = generateOrderId now1 (custId customer),
          customerId = custId customer,
          customerName = custName customer,
          orderItems = its,
          subtotal = subtotal, tax = tax, total = total,
          estimatedReady = calculateReadyTime fmt now2\<rparr>)"

section \<open>The steps of parseOrderItem\<close>

text \<open>
  The menu entry, the size and the milk that \<open>parseOrderItem\<close> settles on and the line
  total it computes from them: the pieces of its body, named so that each can be
  evaluated on its own. \<open>parseOrderItem_steps\<close> shows that \<open>parseOrderItem\<close> is their
  composition.
\<close>

definition resolvedMenuItem :: "string \<Rightarrow> MenuItem option" where
  "resolvedMenuItem text =
     (let lowerText = toLowerCase text; words = splitWhitespace lowerText
      in case firstWordMatch matchMenuWord words of
           Some m \<Rightarrow> Some (item m)
         | None \<Rightarrow> map_option snd (find (containsKey lowerText) menuItems))"

definition resolvedSize :: "string \<Rightarrow> Modifier option" where
  "resolvedSize text =
     (case firstWordMatch matchSizeWord (splitWhitespace (toLowerCase text)) of
        Some m \<Rightarrow> Some (item m)
      | None \<Rightarrow> map_of sizes ''medium'')"

definition resolvedMilk :: "string \<Rightarrow> Modifier option" where
  "resolvedMilk text =
     (let lowerText = toLowerCase text; words = splitWhitespace lowerText;
          milkKey =
            (case find (containsKey lowerText) milkTypes of
               Some e \<Rightarrow> fst e
             | None \<Rightarrow> ''whole milk'');
          milkKey' =
            (if milkKey = ''whole milk''
             then (case firstWordMatch matchMilkWord words of
                     Some m \<Rightarrow> key m
                   | None \<Rightarrow> milkKey)
             else milkKey)
      in map_of milkTypes milkKey')"

definition lineTotal :: "MenuItem \<Rightarrow> Modifier \<Rightarrow> Modifier \<Rightarrow> number \<Rightarrow> number" where
  "lineTotal mi sz milk n =
     jsMul (jsAdd (jsAdd (toDouble (basePrice mi)) (toDouble (priceModifier sz)))
              (toDouble (priceModifier milk)))
       n"

section \<open>Reference definitions\<close>

text \<open>
  The definitions of this section are not taken from the code: they state what the
  code is compared with.
\<close>

subsection \<open>Edit distance\<close>

text \<open>
  The classic recurrence of the Levenshtein distance, and the edit scripts it counts:
  \<open>edits xs ys n\<close> holds when \<open>xs\<close> becomes \<open>ys\<close> by deletions, insertions and
  substitutions of single elements, \<open>n\<close> of them in all.
\<close>

fun levenshtein :: "'a list \<Rightarrow> 'a list \<Rightarrow> nat" where
  "levenshtein [] ys = length ys"
| "levenshtein (x # xs) [] = Suc (length xs)"
| "levenshtein (x # xs) (y # ys) =
     min (levenshtein xs (y # ys) + 1)
       (min (levenshtein (x # xs) ys + 1) (levenshtein xs ys + (if x = y then 0 else 1)))"

inductive edits :: "'a list \<Rightarrow> 'a list \<Rightarrow> nat \<Rightarrow> bool" where
  edits_Nil: "edits [] [] 0"
| edits_delete: "edits xs ys n \<Longrightarrow> edits (x # xs) ys (Suc n)"
| edits_insert: "edits xs ys n \<Longrightarrow> edits xs (y # ys) (Suc n)"
| edits_keep: "edits xs ys n \<Longrightarrow> edits (x # xs) (x # ys) n"
| edits_substitute: "edits xs ys n \<Longrightarrow> edits (x # xs) (y # ys) (Suc n)"

subsection \<open>Similarity\<close>

text \<open>
  The contract of the similarity scorer: case-insensitive; 1 for equal strings, 0.9
  when one contains the other, else \<open>1 - distance / max(len(a), len(b))\<close>.
\<close>

definition similarity :: "string \<Rightarrow> string \<Rightarrow> rat" where
  "similarity s t =
     (let a = toLowerCase s; b = toLowerCase t
      in if a = b then 1
         else if sublist b a \<or> sublist a b then 9 / 10
         else 1 - of_nat (levenshtein a b) / of_nat (max (length a) (length b)))"

subsection \<open>Best match\<close>

text \<open>
  The score of a dictionary entry is the greatest similarity of the term to the key
  and to the aliases of the entry. The best match is the first entry of the
  dictionary whose score is the greatest of all and exceeds the threshold.
\<close>

definition entryNames :: "('v \<Rightarrow> string list option) \<Rightarrow> string \<times> 'v \<Rightarrow> string list" where
  "entryNames aliasesOf e = fst e # (case aliasesOf (snd e) of None \<Rightarrow> [] | Some als \<Rightarrow> als)"

definition entryScore :: "string \<Rightarrow> ('v \<Rightarrow> string list option) \<Rightarrow> string \<times> 'v \<Rightarrow> rat" where
  "entryScore term aliasesOf e = Max (set (map (similarity term) (entryNames aliasesOf e)))"

definition bestEntry :: "string \<Rightarrow> (string \<times> 'v) list \<Rightarrow> ('v \<Rightarrow> string list option) \<Rightarrow> rat \<Rightarrow> 'v Match option" where
  "bestEntry term dictionary aliasesOf threshold =
     (case filter (\<lambda>e. threshold < entryScore term aliasesOf e \<and>
                        (\<forall>e' \<in> set dictionary. entryScore term aliasesOf e' \<le> entryScore term aliasesOf e))
             dictionary of
        [] \<Rightarrow> None
      | e # _ \<Rightarrow> Some \<lparr>key = fst e, item = snd e, score = entryScore term aliasesOf e\<rparr>)"

subsection \<open>Quantity\<close>

text \<open>The quantity of an item text: its leading run of digits, 1 when there is none.\<close>

definition leadingQuantity :: "string \<Rightarrow> number" where
  "leadingQuantity text =
     (let digits = takeWhile isDigit (toLowerCase text)
      in if digits \<noteq> [] then parseInt digits else Finite 1)"

subsection \<open>Resolved items\<close>

text \<open>The item texts that the item interpreter resolves, in their order.\<close>

definition resolvedItems :: "string list \<Rightarrow> OrderItem list" where
  "resolvedItems texts =
     List.map_filter (\<lambda>t. case parseOrderItem t of Inr it \<Rightarrow> Some it | Inl e \<Rightarrow> None) texts"

subsection \<open>The invariant of the distance matrix\<close>

text \<open>
  \<open>filled a b i j matrix\<close>: the rows before row \<open>i\<close> are complete, row \<open>i\<close> has its first \<open>j\<close>
  cells and the rows after it their first cell; the cell \<open>(k, c)\<close> holds the distance of
  the first \<open>k\<close> elements of \<open>a\<close> and the first \<open>c\<close> of \<open>b\<close>.
\<close>

definition rowWidth :: "string \<Rightarrow> nat \<Rightarrow> nat \<Rightarrow> nat \<Rightarrow> nat" where
  "rowWidth b i j k = (if k < i then Suc (length b) else if k = i then j else 1)"

definition filled :: "string \<Rightarrow> string \<Rightarrow> nat \<Rightarrow> nat \<Rightarrow> nat list list \<Rightarrow> bool" where
  "filled a b i j matrix =
     (length matrix = Suc (length a) \<and>
      (\<forall>k \<le> length a.
         matrix ! k = map (\<lambda>c. levenshtein (take k a) (take c b)) [0..<rowWidth b i j k]))"

section \<open>Order identifiers\<close>

text \<open>
  C9. The specification requires two successive calls of \<open>generateOrderId\<close> for the
  same customer to give distinct identifiers. The identifier keeps only the last six
  digits of the clock, so two calls whose clock values agree on them (here 1000 seconds
  apart; equally two calls within one millisecond) give the same identifier.
\<close>

theorem generateOrderId_collision:
  "generateOrderId 1753200000000 ''123456789'' = ''ORD-000000-789'' \<and>
   generateOrderId 1753201000000 ''123456789'' = ''ORD-000000-789''"
  by (simp add: generateOrderId_def sliceLast_def digitChar_def)

section \<open>Edit distance: the recurrence and the edit scripts\<close>

lemma levenshtein_Nil2 [simp]: "levenshtein xs [] = length xs"
  by (cases xs) simp_all

lemma edits_Nil_left: "edits [] ys (length ys)"
  by (induction ys) (auto intro: edits.intros)

lemma edits_Nil_right: "edits xs [] (length xs)"
  by (induction xs) (auto intro: edits.intros)

lemma edits_levenshtein: "edits xs ys (levenshtein xs ys)"
proof (induction xs ys rule: levenshtein.induct)
  case (1 ys)
  then show ?case by (simp add: edits_Nil_left)
next
  case (2 x xs)
  then show ?case using edits_Nil_right [of "x # xs"] by simp
next
  case (3 x xs y ys)
  let ?d = "levenshtein xs (y # ys) + 1"
  let ?i = "levenshtein (x # xs) ys + 1"
  let ?s = "levenshtein xs ys + (if x = y then 0 else 1)"
  have d: "edits (x # xs) (y # ys) ?d" using 3 by (auto intro: edits.intros)
  have i: "edits (x # xs) (y # ys) ?i" using 3 by (auto intro: edits.intros)
  have s: "edits (x # xs) (y # ys) ?s" using 3 by (auto intro: edits.intros)
  have "levenshtein (x # xs) (y # ys) = ?d \<or> levenshtein (x # xs) (y # ys) = ?i
      \<or> levenshtein (x # xs) (y # ys) = ?s"
    by (simp add: min_def)
  with d i s show ?case by metis
qed

lemma levenshtein_Cons_left: "levenshtein (x # xs) ys \<le> Suc (levenshtein xs ys)"
  by (cases ys) simp_all

lemma levenshtein_Cons_right: "levenshtein xs (y # ys) \<le> Suc (levenshtein xs ys)"
  by (cases xs) simp_all

lemma levenshtein_Cons_Cons: "levenshtein (x # xs) (y # ys) \<le> levenshtein xs ys + (if x = y then 0 else 1)"
  by simp

lemma levenshtein_least: "edits xs ys n \<Longrightarrow> levenshtein xs ys \<le> n"
proof (induction rule: edits.induct)
  case edits_Nil
  then show ?case by simp
next
  case (edits_delete xs ys n x)
  then show ?case using levenshtein_Cons_left [of x xs ys] by simp
next
  case (edits_insert xs ys n y)
  then show ?case using levenshtein_Cons_right [of xs y ys] by simp
next
  case (edits_keep xs ys n x)
  then show ?case using levenshtein_Cons_Cons [of x xs x ys] by simp
next
  case (edits_substitute xs ys n x y)
  then show ?case using levenshtein_Cons_Cons [of x xs y ys] by (simp split: if_splits)
qed

lemma edits_snoc_delete: "edits xs ys n \<Longrightarrow> edits (xs @ [x]) ys (Suc n)"
  by (induction rule: edits.induct) (auto intro: edits.intros)

lemma edits_snoc_insert: "edits xs ys n \<Longrightarrow> edits xs (ys @ [y]) (Suc n)"
  by (induction rule: edits.induct) (auto intro: edits.intros)

lemma edits_snoc_keep: "edits xs ys n \<Longrightarrow> edits (xs @ [x]) (ys @ [x]) n"
  by (induction rule: edits.induct) (auto intro: edits.intros)

lemma edits_snoc_substitute: "edits xs ys n \<Longrightarrow> edits (xs @ [x]) (ys @ [y]) (Suc n)"
  by (induction rule: edits.induct) (auto intro: edits.intros)

lemma edits_rev: "edits xs ys n \<Longrightarrow> edits (rev xs) (rev ys) n"
  by (induction rule: edits.induct)
    (auto intro: edits.intros edits_snoc_delete edits_snoc_insert edits_snoc_keep edits_snoc_substitute)

lemma levenshtein_rev_le: "levenshtein (rev xs) (rev ys) \<le> levenshtein xs ys"
  by (rule levenshtein_least) (rule edits_rev, rule edits_levenshtein)

lemma levenshtein_rev: "levenshtein (rev xs) (rev ys) = levenshtein xs ys"
  using levenshtein_rev_le [of xs ys] levenshtein_rev_le [of "rev xs" "rev ys"] by simp

lemma levenshtein_snoc:
  "levenshtein (xs @ [x]) (ys @ [y]) =
     min (levenshtein xs (ys @ [y]) + 1)
       (min (levenshtein (xs @ [x]) ys + 1) (levenshtein xs ys + (if x = y then 0 else 1)))"
proof -
  have "levenshtein (xs @ [x]) (ys @ [y]) = levenshtein (x # rev xs) (y # rev ys)"
    using levenshtein_rev [of "xs @ [x]" "ys @ [y]"] by simp
  moreover have "levenshtein (rev xs) (y # rev ys) = levenshtein xs (ys @ [y])"
    using levenshtein_rev [of xs "ys @ [y]"] by simp
  moreover have "levenshtein (x # rev xs) (rev ys) = levenshtein (xs @ [x]) ys"
    using levenshtein_rev [of "xs @ [x]" ys] by simp
  ultimately show ?thesis by (simp add: levenshtein_rev)
qed

lemma levenshtein_sym: "levenshtein xs ys = levenshtein ys xs"
proof (induction xs ys rule: levenshtein.induct)
  case (3 x xs y ys)
  then show ?case by (simp add: min.commute min.left_commute eq_commute [of x y])
qed simp_all

lemma levenshtein_le_max: "levenshtein xs ys \<le> max (length xs) (length ys)"
proof (induction xs ys rule: levenshtein.induct)
  case (3 x xs y ys)
  have "levenshtein (x # xs) (y # ys) \<le> levenshtein xs ys + (if x = y then 0 else 1)"
    by simp
  also have "\<dots> \<le> Suc (max (length xs) (length ys))" using 3 by simp
  finally show ?case by simp
qed simp_all

section \<open>The distance matrix\<close>

lemma forEach_upt_invariant:
  assumes "lo \<le> hi" and "P lo s"
    and "\<And>n s. lo \<le> n \<Longrightarrow> n < hi \<Longrightarrow> P n s \<Longrightarrow> \<exists>s'. body n s = Some s' \<and> P (Suc n) s'"
  shows "\<exists>s'. forEach [lo..<hi] body s = Some s' \<and> P hi s'"
  using assms
proof (induction "hi - lo" arbitrary: lo s)
  case 0
  then show ?case by simp
next
  case (Suc d)
  then have lt: "lo < hi" by simp
  from Suc.prems(3) [OF le_refl lt Suc.prems(2)]
  obtain s1 where s1: "body lo s = Some s1" "P (Suc lo) s1" by blast
  have "\<exists>s'. forEach [Suc lo..<hi] body s1 = Some s' \<and> P hi s'"
  proof (rule Suc.hyps(1))
    show "d = hi - Suc lo" using Suc.hyps(2) by simp
    show "Suc lo \<le> hi" using lt by simp
    show "P (Suc lo) s1" by (rule s1)
    show "\<exists>s'. body n s = Some s' \<and> P (Suc n) s'" if "Suc lo \<le> n" "n < hi" "P n s" for n s
      using Suc.prems(3) [of n s] that by simp
  qed
  then show ?case using lt s1 by (simp add: upt_conv_Cons)
qed

lemma initRows_eq: "initRows a = Some (map (\<lambda>i. [i]) [0..<Suc (length a)])"
proof -
  have "\<exists>m. forEach [0..<Suc (length a)] (\<lambda>i matrix. arr_set matrix i [i]) [] = Some m
          \<and> m = map (\<lambda>i. [i]) [0..<Suc (length a)]"
    by (rule forEach_upt_invariant [where P = "\<lambda>n m. m = map (\<lambda>i. [i]) [0..<n]"])
      (simp_all add: arr_set_def)
  then show ?thesis by (simp add: initRows_def)
qed

lemma upt_one: "[0..<Suc 0] = [0]"
  by simp

lemma filled_initRows: "filled a b 0 1 (map (\<lambda>i. [i]) [0..<Suc (length a)])"
  by (auto simp: filled_def rowWidth_def upt_one simp del: upt_Suc)

lemma filled_next_row: "filled a b i (Suc (length b)) m \<Longrightarrow> filled a b (Suc i) 1 m"
  by (auto simp: filled_def rowWidth_def)

lemma filled_row:
  "filled a b i j m \<Longrightarrow> k \<le> length a \<Longrightarrow>
     arr_get m k = Some (map (\<lambda>c. levenshtein (take k a) (take c b)) [0..<rowWidth b i j k])"
  by (simp add: filled_def arr_get_def)

lemma filled_cell:
  "filled a b i j m \<Longrightarrow> k \<le> length a \<Longrightarrow> c < rowWidth b i j k \<Longrightarrow>
     mat_get m k c = Some (levenshtein (take k a) (take c b))"
  by (simp add: mat_get_def arr_get_def filled_def)

lemma filled_update:
  assumes "filled a b i j m" "i \<le> length a"
    and "row = map (\<lambda>c. levenshtein (take i a) (take c b)) [0..<j']"
  shows "filled a b i j' (m[i := row])"
  using assms by (auto simp: filled_def rowWidth_def nth_list_update)


lemma arr_set_inside: "i < length xs \<Longrightarrow> arr_set xs i v = Some (xs[i := v])"
  by (simp add: arr_set_def)

lemma initFirstRow_step:
  assumes s: "filled a b 0 (max 1 j) s" and j: "j < Suc (length b)"
  shows "\<exists>s'. mat_set s 0 j j = Some s' \<and> filled a b 0 (max 1 (Suc j)) s'"
proof -
  define row where "row = map (\<lambda>c. levenshtein (take 0 a) (take c b)) [0..<max 1 j]"
  define row' where "row' = map (\<lambda>c. levenshtein (take 0 a) (take c b)) [0..<max 1 (Suc j)]"
  have getrow: "arr_get s 0 = Some row"
    using filled_row [OF s, of 0] by (simp add: rowWidth_def row_def)
  have setrow: "arr_set row j j = Some row'"
  proof (cases j)
    case 0
    then show ?thesis by (simp add: arr_set_def row_def row'_def)
  next
    case (Suc n)
    then have "min (length b) (Suc n) = Suc n" using j by simp
    then show ?thesis using Suc by (simp add: arr_set_def row_def row'_def)
  qed
  have len: "0 < length s" using s by (simp add: filled_def)
  have "mat_set s 0 j j = Some (s[0 := row'])"
    using len by (simp add: mat_set_def getrow setrow arr_set_inside)
  moreover have "filled a b 0 (max 1 (Suc j)) (s[0 := row'])"
    by (rule filled_update [OF s _ row'_def]) simp
  ultimately show ?thesis by blast
qed

lemma initFirstRow_filled:
  assumes "filled a b 0 1 m"
  shows "\<exists>m'. initFirstRow b m = Some m' \<and> filled a b 1 1 m'"
proof -
  have "\<exists>m'. forEach [0..<Suc (length b)] (\<lambda>j m. mat_set m 0 j j) m = Some m'
          \<and> filled a b 0 (max 1 (Suc (length b))) m'"
  proof (rule forEach_upt_invariant [where P = "\<lambda>j m. filled a b 0 (max 1 j) m"])
    show "0 \<le> Suc (length b)" by simp
    show "filled a b 0 (max 1 0) m" using assms by simp
    fix j s assume "j < Suc (length b)" "filled a b 0 (max 1 j) s"
    then show "\<exists>s'. mat_set s 0 j j = Some s' \<and> filled a b 0 (max 1 (Suc j)) s'"
      using initFirstRow_step by blast
  qed
  then obtain m' where "initFirstRow b m = Some m'" "filled a b 0 (Suc (length b)) m'"
    by (auto simp: initFirstRow_def)
  then show ?thesis using filled_next_row [of a b 0 m'] by auto
qed

lemma fillCell_filled:
  assumes m: "filled a b (Suc i) (Suc j) m" and i: "i < length a" and j: "j < length b"
  shows "\<exists>m'. fillCell a b (Suc i) (Suc j) m = Some m' \<and> filled a b (Suc i) (Suc (Suc j)) m'"
proof -
  let ?D = "\<lambda>k c. levenshtein (take k a) (take c b)"
  define v where
    "v = min (?D i (Suc j) + 1) (min (?D (Suc i) j + 1) (?D i j + (if a ! i = b ! j then 0 else 1)))"
  define row where "row = map (?D (Suc i)) [0..<Suc j]"
  define row' where "row' = map (?D (Suc i)) [0..<Suc (Suc j)]"
  have del: "mat_get m i (Suc j) = Some (?D i (Suc j))"
    using i j by (intro filled_cell [OF m]) (simp_all add: rowWidth_def)
  have ins: "mat_get m (Suc i) j = Some (?D (Suc i) j)"
    using i j by (intro filled_cell [OF m]) (simp_all add: rowWidth_def)
  have sub: "mat_get m i j = Some (?D i j)"
    using i j by (intro filled_cell [OF m]) (simp_all add: rowWidth_def)
  have cost: "(arr_get a i = arr_get b j) = (a ! i = b ! j)"
    using i j by (simp add: arr_get_def)
  have val: "v = ?D (Suc i) (Suc j)"
    unfolding v_def using i j by (simp add: take_Suc_conv_app_nth levenshtein_snoc)
  have cell: "fillCell a b (Suc i) (Suc j) m = mat_set m (Suc i) (Suc j) v"
    unfolding fillCell_def v_def by (simp add: del ins sub cost)
  have getrow: "arr_get m (Suc i) = Some row"
    using filled_row [OF m, of "Suc i"] i by (simp add: rowWidth_def row_def)
  have "row @ [v] = row'"
    unfolding row_def row'_def val by simp
  moreover have "length row = Suc j" by (simp add: row_def)
  ultimately have setrow: "arr_set row (Suc j) v = Some row'"
    by (simp add: arr_set_def)
  have len: "Suc i < length m" using m i by (simp add: filled_def)
  have "mat_set m (Suc i) (Suc j) v = Some (m[Suc i := row'])"
    using len by (simp add: mat_set_def getrow setrow arr_set_inside)
  moreover have "filled a b (Suc i) (Suc (Suc j)) (m[Suc i := row'])"
    using i by (intro filled_update [OF m _ row'_def]) simp
  ultimately show ?thesis using cell by simp
qed

lemma fillRow_filled:
  assumes m: "filled a b (Suc i) 1 m" and i: "i < length a"
  shows "\<exists>m'. fillRow a b (Suc i) m = Some m' \<and> filled a b (Suc (Suc i)) 1 m'"
proof -
  have "\<exists>m'. fillRow a b (Suc i) m = Some m' \<and> filled a b (Suc i) (Suc (length b)) m'"
    unfolding fillRow_def
  proof (rule forEach_upt_invariant [where P = "\<lambda>j m. filled a b (Suc i) j m"])
    show "1 \<le> Suc (length b)" by simp
    show "filled a b (Suc i) 1 m" by (rule m)
    fix j s assume "1 \<le> j" "j < Suc (length b)" "filled a b (Suc i) j s"
    then show "\<exists>s'. fillCell a b (Suc i) j s = Some s' \<and> filled a b (Suc i) (Suc j) s'"
      using fillCell_filled [of a b i "j - 1" s] i by simp
  qed
  then show ?thesis using filled_next_row by blast
qed

lemma fillMatrix_filled:
  assumes m: "filled a b 1 1 m"
  shows "\<exists>m'. fillMatrix a b m = Some m' \<and> filled a b (Suc (length a)) 1 m'"
  unfolding fillMatrix_def
proof (rule forEach_upt_invariant [where P = "\<lambda>i m. filled a b i 1 m"])
  show "1 \<le> Suc (length a)" by simp
  show "filled a b 1 1 m" by (rule m)
  fix i s assume "1 \<le> i" "i < Suc (length a)" "filled a b i 1 s"
  then show "\<exists>s'. fillRow a b i s = Some s' \<and> filled a b (Suc i) 1 s'"
    using fillRow_filled [of a b "i - 1" s] by simp
qed

lemma levenshteinMatrix_eq: "levenshteinMatrix a b = Some (levenshtein a b)"
proof -
  obtain m1 where m1: "initFirstRow b (map (\<lambda>i. [i]) [0..<Suc (length a)]) = Some m1" "filled a b 1 1 m1"
    using initFirstRow_filled [OF filled_initRows] by blast
  obtain m2 where m2: "fillMatrix a b m1 = Some m2" "filled a b (Suc (length a)) 1 m2"
    using fillMatrix_filled [OF m1(2)] by blast
  have "mat_get m2 (length a) (length b) = Some (levenshtein (take (length a) a) (take (length b) b))"
    by (rule filled_cell [OF m2(2)]) (simp_all add: rowWidth_def)
  then show ?thesis
    by (simp add: levenshteinMatrix_def initRows_eq m1 m2 del: upt_Suc)
qed

section \<open>The similarity score\<close>

lemma includesStr_sublist: "includesStr a b = sublist b a"
  by (induction a) (simp_all add: sublist_Cons_right)

lemma calculateSimilarity_similarity: "calculateSimilarity s t = Some (similarity s t)"
proof -
  have "max (length (toLowerCase s)) (length (toLowerCase t)) \<noteq> 0"
    if "toLowerCase s \<noteq> toLowerCase t"
    using that by (cases "toLowerCase s"; cases "toLowerCase t") simp_all
  then show ?thesis
    by (simp add: calculateSimilarity_def similarity_def Let_def includesStr_sublist
        levenshteinMatrix_eq disj_commute)
qed

lemma similarity_bounds: "0 \<le> similarity s t \<and> similarity s t \<le> 1"
proof -
  let ?a = "toLowerCase s" and ?b = "toLowerCase t"
  let ?m = "max (length ?a) (length ?b)"
  have "(of_nat (levenshtein ?a ?b) :: rat) \<le> of_nat ?m"
    using levenshtein_le_max [of ?a ?b] by (simp only: of_nat_le_iff)
  then have "(of_nat (levenshtein ?a ?b) :: rat) / of_nat ?m \<le> 1"
    by (cases "?m = 0") (simp_all add: divide_le_eq)
  moreover have "0 \<le> (of_nat (levenshtein ?a ?b) :: rat) / of_nat ?m"
    by simp
  ultimately show ?thesis
    by (simp add: similarity_def Let_def)
qed

lemma similarity_same: "similarity s s = 1"
  by (simp add: similarity_def)

lemma similarity_sym: "similarity s t = similarity t s"
  by (auto simp: similarity_def Let_def levenshtein_sym max.commute)

text \<open>
  C5. \<open>calculateSimilarity\<close> computes the reference similarity: on the lowercased
  strings, 1 when they are equal, 0.9 when one contains the other, and otherwise
  \<open>1 - levenshtein a b / max (length a) (length b)\<close>, where \<open>levenshtein\<close> is the least
  number of unit-cost deletions, insertions and substitutions (\<open>edits_levenshtein\<close>,
  \<open>levenshtein_least\<close>). The score lies between 0 and 1, a string scores 1 against
  itself, and the score is symmetric.
\<close>

theorem calculateSimilarity_reference:
  "calculateSimilarity a b = Some (similarity a b) \<and>
   0 \<le> similarity a b \<and> similarity a b \<le> 1 \<and>
   calculateSimilarity s s = Some 1 \<and>
   calculateSimilarity a b = calculateSimilarity b a"
  using similarity_bounds [of a b] similarity_sym [of a b]
  by (simp add: calculateSimilarity_similarity similarity_same)

section \<open>The best match\<close>

lemma foldl_max_ge: "(b :: rat) \<le> foldl max b xs"
proof (induction xs arbitrary: b)
  case (Cons x xs)
  show ?case using Cons [of "max b x"] by simp
qed simp

lemma foldl_max_upper: "x \<in> set xs \<Longrightarrow> (x :: rat) \<le> foldl max b xs"
proof (induction xs arbitrary: b)
  case (Cons y ys)
  then show ?case using foldl_max_ge [of "max b y" ys] by auto
qed simp

lemma foldl_max_mem: "foldl max (b :: rat) xs = b \<or> foldl max b xs \<in> set xs"
proof (induction xs arbitrary: b)
  case (Cons y ys)
  then show ?case using Cons [of "max b y"] by (auto simp: max_def split: if_splits)
qed simp

lemma foldl_max_Max:
  assumes "xs \<noteq> []"
  shows "foldl max (b :: rat) xs = max b (Max (set xs))"
proof (rule antisym)
  consider "foldl max b xs = b" | "foldl max b xs \<in> set xs"
    using foldl_max_mem [of b xs] by blast
  then show "foldl max b xs \<le> max b (Max (set xs))"
  proof cases
    case 1
    then show ?thesis by simp
  next
    case 2
    then have "foldl max b xs \<le> Max (set xs)" by simp
    then show ?thesis by (simp add: le_max_iff_disj)
  qed
  have "Max (set xs) \<le> foldl max b xs"
    using assms by (simp add: foldl_max_upper)
  then show "max b (Max (set xs)) \<le> foldl max b xs"
    using foldl_max_ge [of b xs] by simp
qed

text \<open>One entry: the scores of its names are compared in turn.\<close>

lemma considerScore_Some:
  "considerScore k v (Some s) (bm, bs) =
     (if bs < s then (Some \<lparr>key = k, item = v, score = s\<rparr>, s) else (bm, bs))"
  by (simp add: considerScore_def)

lemma considerScore_names:
  "foldl (\<lambda>st' nm. considerScore k v (Some (f nm)) st') (bm, bs) names =
     (let bs' = foldl max bs (map f names)
      in (if bs < bs' then Some \<lparr>key = k, item = v, score = bs'\<rparr> else bm, bs'))"
proof (induction names arbitrary: bm bs)
  case Nil
  then show ?case by simp
next
  case (Cons n ns)
  show ?case
  proof (cases "bs < f n")
    case True
    define m where "m = foldl max (f n) (map f ns)"
    have ge: "f n \<le> m" unfolding m_def by (rule foldl_max_ge)
    have "foldl (\<lambda>st' nm. considerScore k v (Some (f nm)) st')
            (Some \<lparr>key = k, item = v, score = f n\<rparr>, f n) ns =
        (if f n < m then Some \<lparr>key = k, item = v, score = m\<rparr>
         else Some \<lparr>key = k, item = v, score = f n\<rparr>, m)"
      by (simp add: Cons Let_def m_def)
    moreover have "max bs (f n) = f n" using True by simp
    ultimately show ?thesis
      using True ge by (auto simp: considerScore_Some Let_def m_def [symmetric])
  next
    case False
    then have "max bs (f n) = bs" by simp
    with False show ?thesis
      by (simp add: considerScore_Some Cons Let_def)
  qed
qed

lemma entryStep_score:
  "entryStep term aliasesOf st e =
     (if snd st < entryScore term aliasesOf e
      then (Some \<lparr>key = fst e, item = snd e, score = entryScore term aliasesOf e\<rparr>,
            entryScore term aliasesOf e)
      else st)"
proof -
  let ?names = "entryNames aliasesOf e"
  let ?f = "similarity term"
  have names: "aliasStep term (fst e) (snd e) = (\<lambda>st' nm. considerScore (fst e) (snd e) (Some (?f nm)) st')"
    by (intro ext) (simp add: aliasStep_def calculateSimilarity_similarity)
  have step: "entryStep term aliasesOf st e =
      foldl (\<lambda>st' nm. considerScore (fst e) (snd e) (Some (?f nm)) st') (fst st, snd st) ?names"
    by (simp add: entryStep_def entryNames_def Let_def calculateSimilarity_similarity names
        split: option.split)
  have "foldl max (snd st) (map ?f ?names) = max (snd st) (entryScore term aliasesOf e)"
    by (subst foldl_max_Max) (simp_all add: entryScore_def entryNames_def)
  then show ?thesis
    unfolding step considerScore_names
    by (cases st) (auto simp: Let_def max_def)
qed

text \<open>The dictionary: the first entry with the greatest score, when it exceeds the start.\<close>

lemma first_strict_max:
  "foldl (\<lambda>st e. if snd st < sc e then (Some (mk e), sc e) else st) (bm, bs :: rat) dict =
     (let m = foldl max bs (map sc dict)
      in (if bs < m then map_option mk (find (\<lambda>e. sc e = m) dict) else bm, m))"
proof (induction dict arbitrary: bm bs)
  case Nil
  then show ?case by simp
next
  case (Cons e es)
  show ?case
  proof (cases "bs < sc e")
    case True
    define m where "m = foldl max (sc e) (map sc es)"
    have ge: "sc e \<le> m" unfolding m_def by (rule foldl_max_ge)
    have "foldl (\<lambda>st e. if snd st < sc e then (Some (mk e), sc e) else st) (Some (mk e), sc e) es =
        (if sc e < m then map_option mk (find (\<lambda>e. sc e = m) es) else Some (mk e), m)"
      by (simp add: Cons Let_def m_def)
    moreover have "max bs (sc e) = sc e" using True by simp
    ultimately show ?thesis
      using True ge by (auto simp: Let_def m_def [symmetric])
  next
    case False
    define m where "m = foldl max bs (map sc es)"
    have "foldl (\<lambda>st e. if snd st < sc e then (Some (mk e), sc e) else st) (bm, bs) es =
        (if bs < m then map_option mk (find (\<lambda>e. sc e = m) es) else bm, m)"
      by (simp add: Cons Let_def m_def)
    moreover have "max bs (sc e) = bs" using False by simp
    ultimately show ?thesis
      using False by (auto simp: Let_def m_def [symmetric])
  qed
qed

lemma find_filter_hd: "find P xs = (case filter P xs of [] \<Rightarrow> None | x # _ \<Rightarrow> Some x)"
  by (induction xs) simp_all

lemma findBestMatch_bestEntry:
  "findBestMatch term dictionary aliasesOf threshold = bestEntry term dictionary aliasesOf threshold"
proof -
  let ?sc = "entryScore term aliasesOf"
  let ?mk = "\<lambda>e. \<lparr>key = fst e, item = snd e, score = ?sc e\<rparr>"
  define m where "m = foldl max threshold (map ?sc dictionary)"
  have step: "entryStep term aliasesOf = (\<lambda>st e. if snd st < ?sc e then (Some (?mk e), ?sc e) else st)"
    by (intro ext) (rule entryStep_score)
  have code: "findBestMatch term dictionary aliasesOf threshold =
      (if threshold < m then map_option ?mk (find (\<lambda>e. ?sc e = m) dictionary) else None)"
    unfolding findBestMatch_def step first_strict_max m_def by (simp add: Let_def)
  have upper: "\<And>e. e \<in> set dictionary \<Longrightarrow> ?sc e \<le> m"
    unfolding m_def by (rule foldl_max_upper) simp
  have mem: "m = threshold \<or> (\<exists>e \<in> set dictionary. ?sc e = m)"
    using foldl_max_mem [of threshold "map ?sc dictionary"] unfolding m_def by auto
  show ?thesis
  proof (cases "threshold < m")
    case True
    then obtain e0 where e0: "e0 \<in> set dictionary" "?sc e0 = m" using mem by auto
    have "(threshold < ?sc e \<and> (\<forall>e' \<in> set dictionary. ?sc e' \<le> ?sc e)) = (?sc e = m)"
      if "e \<in> set dictionary" for e
      using that True upper e0 by (metis order.antisym)
    then have "filter (\<lambda>e. threshold < ?sc e \<and> (\<forall>e' \<in> set dictionary. ?sc e' \<le> ?sc e)) dictionary
        = filter (\<lambda>e. ?sc e = m) dictionary"
      by (intro filter_cong) simp_all
    then show ?thesis
      using True by (simp add: code bestEntry_def find_filter_hd split: list.split)
  next
    case False
    then have "\<not> threshold < ?sc e" if "e \<in> set dictionary" for e
      using upper [OF that] by simp
    then have "filter (\<lambda>e. threshold < ?sc e \<and> (\<forall>e' \<in> set dictionary. ?sc e' \<le> ?sc e)) dictionary = []"
      by (simp add: filter_empty_conv)
    then show ?thesis using False by (simp add: code bestEntry_def)
  qed
qed

text \<open>
  C6. For every term, dictionary and threshold, \<open>findBestMatch\<close> returns the reference
  best match: an entry scores the greatest similarity of the term to its key and to
  its aliases, the entry returned is the first of the dictionary whose score is the
  greatest of all, and it is returned only when that score exceeds the threshold
  (0.7 by default); otherwise nothing is returned.
\<close>

theorem findBestMatch_reference:
  "findBestMatch term dictionary aliasesOf threshold = bestEntry term dictionary aliasesOf threshold \<and>
   defaultThreshold = 7 / 10"
  by (simp add: findBestMatch_bestEntry defaultThreshold_def)

theorem findBestMatch_reference_witness:
  "bestEntry ''latte'' sizes noAliases defaultThreshold =
     Some \<lparr>key = ''l'', item = \<lparr>name = ''Large'', priceModifier = 1 / 2\<rparr>, score = 9 / 10\<rparr> \<and>
   bestEntry ''cap'' menuItems menuAliases defaultThreshold =
     Some \<lparr>key = ''cappuccino'', item = cappuccino, score = 1\<rparr> \<and>
   bestEntry ''espresso'' menuItems menuAliases defaultThreshold = None"
proof -
  have "findBestMatch ''latte'' sizes noAliases defaultThreshold =
     Some \<lparr>key = ''l'', item = \<lparr>name = ''Large'', priceModifier = 1 / 2\<rparr>, score = 9 / 10\<rparr>"
    by code_simp
  moreover have "findBestMatch ''cap'' menuItems menuAliases defaultThreshold =
     Some \<lparr>key = ''cappuccino'', item = cappuccino, score = 1\<rparr>"
    by code_simp
  moreover have "findBestMatch ''espresso'' menuItems menuAliases defaultThreshold = None"
    by code_simp
  ultimately show ?thesis
    using findBestMatch_reference [of "''latte''" sizes noAliases defaultThreshold]
      findBestMatch_reference [of "''cap''" menuItems menuAliases defaultThreshold]
      findBestMatch_reference [of "''espresso''" menuItems menuAliases defaultThreshold]
    by simp
qed

section \<open>Doubles\<close>

declare exponentUp.simps [simp del] exponentDown.simps [simp del]

lemma exponentUp_bounds:
  "1 \<le> x \<Longrightarrow>
     0 \<le> exponentUp x \<and> power_int 2 (exponentUp x) \<le> x \<and> x < power_int 2 (exponentUp x + 1)"
proof (induction x rule: exponentUp.induct)
  case (1 x)
  show ?case
  proof (cases "2 \<le> x")
    case True
    then have "1 \<le> x / 2" by simp
    from 1(1) [OF True this] have e: "0 \<le> exponentUp (x / 2)"
      and lo: "power_int 2 (exponentUp (x / 2)) \<le> x / 2"
      and hi: "x / 2 < power_int 2 (exponentUp (x / 2) + 1)" by simp_all
    have eq: "exponentUp x = exponentUp (x / 2) + 1"
      using True by (subst exponentUp.simps) simp
    have p: "power_int (2::rat) (exponentUp (x / 2) + 1 + 1) = power_int 2 (exponentUp (x / 2) + 1) * 2"
      by (rule power_int_add_1) simp
    have p': "power_int (2::rat) (exponentUp (x / 2) + 1) = power_int 2 (exponentUp (x / 2)) * 2"
      by (rule power_int_add_1) simp
    show ?thesis unfolding eq p using e lo hi p' by simp
  next
    case False
    then have "exponentUp x = 0" by (subst exponentUp.simps) simp
    then show ?thesis using False 1(2) by simp
  qed
qed

lemma exponentDown_bounds:
  "0 < x \<Longrightarrow> x < 1 \<Longrightarrow>
     exponentDown x < 0 \<and> power_int 2 (exponentDown x) \<le> x \<and> x < power_int 2 (exponentDown x + 1)"
proof (induction x rule: exponentDown.induct)
  case (1 x)
  have eq: "exponentDown x = exponentDown (2 * x) - 1"
    using 1(2,3) by (subst exponentDown.simps) simp
  have p: "power_int (2::rat) (exponentDown (2 * x) - 1 + 1) = power_int 2 (exponentDown (2 * x) - 1) * 2"
    by (rule power_int_add_1) simp
  show ?case
  proof (cases "2 * x < 1")
    case True
    have "0 < x \<and> x < 1" using 1(2,3) by simp
    from 1(1) [OF this _ True] 1(2)
    have e: "exponentDown (2 * x) < 0"
      and lo: "power_int 2 (exponentDown (2 * x)) \<le> 2 * x"
      and hi: "2 * x < power_int 2 (exponentDown (2 * x) + 1)" by simp_all
    have p': "power_int (2::rat) (exponentDown (2 * x) + 1) = power_int 2 (exponentDown (2 * x)) * 2"
      by (rule power_int_add_1) simp
    show ?thesis unfolding eq using e lo hi p p' by simp
  next
    case False
    then have "exponentDown (2 * x) = 0" by (subst exponentDown.simps) simp
    then show ?thesis unfolding eq using False 1(2,3) by (simp add: power_int_minus)
  qed
qed

text \<open>The exponent of \<open>x\<close> is the one integer \<open>e\<close> with \<open>2 ^ e \<le> x < 2 ^ (e + 1)\<close>.\<close>

lemma exponentOf_bounds:
  assumes "0 < x"
  shows "power_int 2 (exponentOf x) \<le> x \<and> x < power_int 2 (exponentOf x + 1)"
  using assms exponentUp_bounds [of x] exponentDown_bounds [of x]
  by (cases "1 \<le> x") (simp_all add: exponentOf_def)

lemma exponentOf_unique:
  assumes "0 < x" and lo: "power_int 2 e \<le> x" and hi: "x < power_int 2 (e + 1)"
  shows "exponentOf x = e"
proof (rule ccontr)
  assume ne: "exponentOf x \<noteq> e"
  let ?f = "exponentOf x"
  from exponentOf_bounds [OF assms(1)]
  have lo': "power_int 2 ?f \<le> x" and hi': "x < power_int 2 (?f + 1)" by simp_all
  show False
  proof (cases "?f < e")
    case True
    then have "power_int (2::rat) (?f + 1) \<le> power_int 2 e"
      by (intro power_int_increasing) simp_all
    with lo hi' show False by simp
  next
    case False
    with ne have "e + 1 \<le> ?f" by simp
    then have "power_int (2::rat) (e + 1) \<le> power_int 2 ?f"
      by (intro power_int_increasing) simp_all
    with lo' hi show False by simp
  qed
qed

lemma roundHalfEven_unique:
  assumes "\<bar>t - of_int m\<bar> < 1 / 2"
  shows "roundHalfEven t = m"
proof -
  have lo: "of_int m - 1 / 2 < t" and hi: "t < of_int m + 1 / 2" using assms by linarith+
  show ?thesis
  proof (cases "of_int m \<le> t")
    case True
    then have f: "\<lfloor>t\<rfloor> = m" using hi by (intro floor_unique) linarith+
    then show ?thesis using hi by (simp add: roundHalfEven_def Let_def)
  next
    case False
    then have f: "\<lfloor>t\<rfloor> = m - 1" using lo by (intro floor_unique) simp_all
    then show ?thesis using lo False by (simp add: roundHalfEven_def Let_def)
  qed
qed

lemma roundHalfEven_tie:
  assumes "t = of_int f + 1 / 2"
  shows "roundHalfEven t = (if even f then f else f + 1)"
proof -
  have "\<lfloor>t\<rfloor> = f" unfolding assms by (rule floor_unique) simp_all
  then show ?thesis by (simp add: roundHalfEven_def Let_def assms)
qed

lemma roundHalfEven_near: "\<bar>t - of_int (roundHalfEven t)\<bar> \<le> 1 / 2"
proof -
  have "of_int \<lfloor>t\<rfloor> \<le> t" "t < of_int \<lfloor>t\<rfloor> + 1" by linarith+
  then show ?thesis by (auto simp: roundHalfEven_def Let_def)
qed

text \<open>
  The value of \<open>toDouble\<close> from the exponent \<open>e\<close> of the argument and the significand
  \<open>m\<close> nearest to it.
\<close>

lemma toDouble_eq:
  assumes lo: "power_int 2 e \<le> \<bar>x\<bar>" and hi: "\<bar>x\<bar> < power_int 2 (e + 1)"
    and e: "- 1022 \<le> e" "e \<le> 1022"
    and m: "roundHalfEven (x / power_int 2 (e - 52)) = m"
  shows "toDouble x = Finite (of_int m * power_int 2 (e - 52))"
proof -
  have pos: "0 < \<bar>x\<bar>" using lo zero_less_power_int [of "2::rat" e] by linarith
  then have x0: "x \<noteq> 0" by simp
  have ex: "exponentOf \<bar>x\<bar> = e" using pos lo hi by (rule exponentOf_unique)
  have mx: "max e (- 1022) = e" using e by simp
  define q :: rat where "q = power_int 2 (e - 52)"
  have q: "0 < q" by (simp add: q_def)
  have r: "roundHalfEven (x / q) = m" using m unfolding q_def .
  have near: "\<bar>x / q - of_int m\<bar> \<le> 1 / 2"
    using roundHalfEven_near [of "x / q"] unfolding r .
  have "\<bar>x / q\<bar> < power_int 2 53"
  proof -
    have "power_int (2::rat) (53 + (e - 52)) = power_int 2 53 * power_int 2 (e - 52)"
      by (rule power_int_add) simp
    moreover have "53 + (e - 52) = e + 1" by simp
    ultimately have "power_int (2::rat) (e + 1) = power_int 2 53 * power_int 2 (e - 52)"
      by simp
    then have "\<bar>x\<bar> < power_int 2 53 * q" using hi by (simp add: q_def)
    then show ?thesis using q by (simp add: pos_divide_less_eq)
  qed
  then have "\<bar>of_int m :: rat\<bar> < power_int 2 53 + 1 / 2"
    using near by linarith
  then have "(of_int \<bar>m\<bar> :: rat) < of_int (2 ^ 53 + 1)" by simp
  then have "\<bar>m\<bar> < 2 ^ 53 + 1" by (simp only: of_int_less_iff)
  then have "\<bar>m\<bar> \<le> 2 ^ 53" by simp
  then have "(of_int \<bar>m\<bar> :: rat) \<le> of_int (2 ^ 53)" by (simp only: of_int_le_iff)
  then have mb: "\<bar>of_int m :: rat\<bar> \<le> power_int 2 53" by simp
  have "power_int (2::rat) 53 * q = power_int 2 (53 + (e - 52))"
    unfolding q_def by (rule power_int_add [symmetric]) simp
  moreover have "53 + (e - 52) = e + 1" by simp
  ultimately have "power_int (2::rat) 53 * q = power_int 2 (e + 1)" by simp
  also have "\<dots> \<le> power_int 2 1023" using e by (intro power_int_increasing) simp_all
  also have "\<dots> < power_int 2 1024" by (intro power_int_strict_increasing) simp_all
  finally have "power_int 2 53 * q < power_int (2::rat) 1024" .
  moreover have "\<bar>of_int m * q\<bar> \<le> power_int 2 53 * q"
    using mb q by (simp add: abs_mult)
  ultimately have "\<not> power_int 2 1024 \<le> \<bar>of_int m * q\<bar>" by linarith
  then show ?thesis
    using x0 by (simp add: toDouble_def ex mx Let_def r q_def [symmetric])
qed

text \<open>The argument is nearer to \<open>m\<close> than to any other significand.\<close>

lemma toDouble_value:
  assumes "power_int 2 e \<le> \<bar>x\<bar>" and "\<bar>x\<bar> < power_int 2 (e + 1)"
    and "- 1022 \<le> e" and "e \<le> 1022"
    and "\<bar>x / power_int 2 (e - 52) - of_int m\<bar> < 1 / 2"
    and "y = of_int m * power_int 2 (e - 52)"
  shows "toDouble x = Finite y"
  using toDouble_eq [OF assms(1-4) roundHalfEven_unique [OF assms(5)]] assms(6) by simp

text \<open>The argument is half way between the significands \<open>f\<close> and \<open>f + 1\<close>.\<close>

lemma toDouble_tie:
  assumes "power_int 2 e \<le> \<bar>x\<bar>" and "\<bar>x\<bar> < power_int 2 (e + 1)"
    and "- 1022 \<le> e" and "e \<le> 1022"
    and "x / power_int 2 (e - 52) = of_int f + 1 / 2"
    and "y = of_int (if even f then f else f + 1) * power_int 2 (e - 52)"
  shows "toDouble x = Finite y"
  using toDouble_eq [OF assms(1-4) roundHalfEven_tie [OF assms(5)]] assms(6) by simp

lemma power_int_two_less_imp:
  assumes "power_int (2::rat) a < power_int 2 b"
  shows "a < b"
proof (rule ccontr)
  assume "\<not> a < b"
  then have "power_int (2::rat) b \<le> power_int 2 a"
    by (intro power_int_increasing) simp_all
  with assms show False by simp
qed

text \<open>
  A rational \<open>k / 2 ^ j\<close> with \<open>\<bar>k\<bar> < 2 ^ 53\<close> and \<open>j \<le> 1022\<close> is a double; so is
  every integer below \<open>2 ^ 53\<close>.
\<close>

lemma toDouble_exact:
  assumes k: "\<bar>k\<bar> < 2 ^ 53" and j: "j \<le> 1022"
  shows "toDouble (of_int k / 2 ^ j) = Finite (of_int k / 2 ^ j)"
proof (cases "k = 0")
  case True
  then show ?thesis by (simp add: toDouble_def)
next
  case False
  define x :: rat where "x = of_int k / 2 ^ j"
  define e where "e = exponentOf \<bar>x\<bar>"
  have xj: "x = of_int k * power_int 2 (- int j)"
    by (simp add: x_def power_int_minus divide_inverse)
  have ax: "\<bar>x\<bar> = of_int \<bar>k\<bar> * power_int 2 (- int j)" by (simp add: xj abs_mult)
  have pj: "0 < power_int (2::rat) (- int j)" by simp
  have pos: "0 < \<bar>x\<bar>" using False by (simp add: x_def)
  from exponentOf_bounds [OF pos]
  have lo: "power_int 2 e \<le> \<bar>x\<bar>" and hi: "\<bar>x\<bar> < power_int 2 (e + 1)"
    by (simp_all add: e_def)
  have "1 \<le> \<bar>k\<bar>" using False by simp
  then have "(1::rat) \<le> of_int \<bar>k\<bar>" by (simp only: of_int_1_le_iff)
  then have "1 * power_int 2 (- int j) \<le> \<bar>x\<bar>"
    unfolding ax using pj by (intro mult_right_mono) simp_all
  with hi have "power_int (2::rat) (- int j) < power_int 2 (e + 1)" by simp
  then have "- int j < e + 1" by (rule power_int_two_less_imp)
  then have e1: "- 1022 \<le> e" using j by simp
  have "(of_int \<bar>k\<bar> :: rat) < of_int (2 ^ 53)" using k by (simp only: of_int_less_iff)
  then have "(of_int \<bar>k\<bar> :: rat) < power_int 2 53" by simp
  then have "\<bar>x\<bar> < power_int 2 53 * power_int 2 (- int j)"
    unfolding ax using pj by (intro mult_strict_right_mono) simp_all
  also have "\<dots> = power_int 2 (53 - int j)"
    using power_int_add [of "2::rat" 53 "- int j"] by simp
  finally have "power_int (2::rat) e < power_int 2 (53 - int j)" using lo by simp
  then have ej: "e < 53 - int j" by (rule power_int_two_less_imp)
  then have e2: "e \<le> 1022" by simp
  define n where "n = nat (52 - e - int j)"
  have n: "int n = 52 - e - int j" using ej by (simp add: n_def)
  define m where "m = k * 2 ^ n"
  have "power_int (2::rat) (- int j) * power_int 2 (52 - e) = power_int 2 (- int j + (52 - e))"
    by (rule power_int_add [symmetric]) simp
  also have "- int j + (52 - e) = int n" using n by simp
  finally have pn: "power_int (2::rat) (- int j) * power_int 2 (52 - e) = 2 ^ n" by simp
  have inv: "1 / power_int (2::rat) (e - 52) = power_int 2 (52 - e)"
    using power_int_minus [of "2::rat" "e - 52"] by (simp add: divide_inverse)
  have "x / power_int 2 (e - 52) = x * power_int 2 (52 - e)"
    using inv by (simp add: divide_inverse)
  also have "\<dots> = of_int k * (power_int 2 (- int j) * power_int 2 (52 - e))"
    by (simp add: xj)
  also have "\<dots> = of_int m" by (simp add: pn m_def)
  finally have xm: "x / power_int 2 (e - 52) = of_int m" .
  then have "\<bar>x / power_int 2 (e - 52) - of_int m\<bar> < 1 / 2" by simp
  then have "roundHalfEven (x / power_int 2 (e - 52)) = m" by (rule roundHalfEven_unique)
  from toDouble_eq [OF lo hi e1 e2 this]
  have "toDouble x = Finite (of_int m * power_int 2 (e - 52))" .
  moreover have "of_int m * power_int 2 (e - 52) = x"
    using xm by (simp add: field_simps)
  ultimately show ?thesis by (simp add: x_def)
qed

lemma toDouble_of_int: "\<bar>k\<bar> < 2 ^ 53 \<Longrightarrow> toDouble (of_int k) = Finite (of_int k)"
  using toDouble_exact [of k 0] by simp

lemma toDouble_prices:
  "toDouble 0 = Finite 0" "toDouble 1 = Finite 1" "toDouble 4 = Finite 4"
  "toDouble (1 / 2) = Finite (1 / 2)" "toDouble (7 / 2) = Finite (7 / 2)"
  "toDouble (9 / 2) = Finite (9 / 2)"
  using toDouble_exact [of 0 0] toDouble_exact [of 1 0] toDouble_exact [of 4 0]
    toDouble_exact [of 1 1] toDouble_exact [of 7 1] toDouble_exact [of 9 1]
  by simp_all

text \<open>An integer beyond \<open>2 ^ 53\<close> is read as the double nearest to it.\<close>

lemma parseInt_rounds: "parseInt ''9007199254740993'' = Finite 9007199254740992"
proof -
  have "digitsValue ''9007199254740993'' = 9007199254740993" by code_simp
  moreover have "toDouble 9007199254740993 = Finite 9007199254740992"
    by (rule toDouble_tie [where e = 53 and f = 4503599627370496]) simp_all
  ultimately show ?thesis by (simp add: parseInt_def)
qed

text \<open>\<open>roundCurrency\<close> and \<open>calculateTax\<close> on a finite number, step by step.\<close>

lemma roundCurrency_value:
  assumes "toDouble (a * 100) = Finite p" and "\<lfloor>p + 1 / 2\<rfloor> = r"
    and "toDouble (of_int r / 100) = Finite d"
  shows "roundCurrency (Finite a) = Finite d"
  using assms by (simp add: roundCurrency_def)

lemma calculateTax_value:
  assumes "toDouble (85 / 1000) = Finite t" and "toDouble (a * t) = Finite b"
    and "roundCurrency (Finite b) = Finite d"
  shows "calculateTax (Finite a) = Finite d"
  using assms by (simp add: calculateTax_def)

section \<open>The item interpreter, step by step\<close>

lemma parseOrderItem_steps:
  "parseOrderItem text =
     (case resolvedMenuItem text of
        None \<Rightarrow> Inl itemNotFoundError
      | Some mi \<Rightarrow>
          (case (resolvedSize text, resolvedMilk text) of
             (Some sz, Some milk) \<Rightarrow>
               Inr \<lparr>menuItem = mi, quantity = leadingQuantity text, sizeName = name sz,
                    milkType = name milk, itemTotal = lineTotal mi sz milk (leadingQuantity text)\<rparr>
           | _ \<Rightarrow> Inl itemParseError))"
  by (simp add: parseOrderItem_def Let_def resolvedMenuItem_def resolvedSize_def resolvedMilk_def
      leadingQuantity_def lineTotal_def cong: option.case_cong)

lemma leadingQuantity_digits:
  assumes "takeWhile isDigit (toLowerCase text) = ds" and "ds \<noteq> []"
    and "digitsValue ds = n" and "\<bar>n\<bar> < 2 ^ 53"
  shows "leadingQuantity text = Finite (of_int n)"
  using assms by (simp add: leadingQuantity_def parseInt_def toDouble_of_int)

lemma parseOrderItem_resolved:
  assumes "resolvedMenuItem text = Some mi" and "resolvedSize text = Some sz"
    and "resolvedMilk text = Some milk" and "leadingQuantity text = q"
    and "lineTotal mi sz milk q = t"
  shows "parseOrderItem text =
     Inr \<lparr>menuItem = mi, quantity = q, sizeName = name sz, milkType = name milk, itemTotal = t\<rparr>"
  using assms by (simp add: parseOrderItem_steps)

section \<open>The order parser\<close>

lemma resolvedItems_Nil: "resolvedItems [] = []"
  by (simp add: resolvedItems_def)

lemma resolvedItems_Cons:
  "resolvedItems (t # ts) =
     (case parseOrderItem t of Inr it \<Rightarrow> it # resolvedItems ts | Inl e \<Rightarrow> resolvedItems ts)"
  by (simp add: resolvedItems_def split: sum.split)

lemma collectItem_step:
  "fst (collectItem acc t) = fst acc @ (case parseOrderItem t of Inr it \<Rightarrow> [it] | Inl e \<Rightarrow> [])"
  by (simp add: collectItem_def split: sum.split)

lemma collectItem_fst: "fst (foldl collectItem acc texts) = fst acc @ resolvedItems texts"
proof (induction texts arbitrary: acc)
  case Nil
  then show ?case by (simp add: resolvedItems_Nil)
next
  case (Cons t ts)
  show ?case
    by (simp add: Cons collectItem_step resolvedItems_Cons split: sum.split)
qed

lemma resolvedItems_empty:
  "(resolvedItems texts = []) = (\<forall>t \<in> set texts. \<forall>it. parseOrderItem t \<noteq> Inr it)"
  by (induction texts) (auto simp: resolvedItems_Nil resolvedItems_Cons split: sum.split)

lemma parseOrder_resolved:
  assumes "splitOrderItems text \<noteq> []"
  shows "parseOrder text =
     (if resolvedItems (splitOrderItems text) = []
      then \<lparr>success = False, parsedItems = None, error = error (parseOrder text)\<rparr>
      else \<lparr>success = True, parsedItems = Some (resolvedItems (splitOrderItems text)), error = None\<rparr>)"
  using assms by (simp add: parseOrder_def Let_def collectItem_fst)


lemma parseOrder_success:
  assumes "splitOrderItems text \<noteq> []"
  shows
    "success (parseOrder text) = (\<exists>t \<in> set (splitOrderItems text). \<exists>it. parseOrderItem t = Inr it) \<and>
     (if success (parseOrder text)
      then parsedItems (parseOrder text) = Some (resolvedItems (splitOrderItems text)) \<and>
           error (parseOrder text) = None
      else parsedItems (parseOrder text) = None) \<and>
     parsedItems (parseOrder text) \<noteq> Some []"
proof (cases "resolvedItems (splitOrderItems text) = []")
  case True
  then show ?thesis
    using parseOrder_resolved [OF assms] resolvedItems_empty [of "splitOrderItems text"]
    by (metis (no_types, lifting) ParsedOrder.select_convs(1,2) option.distinct(1))
next
  case False
  then show ?thesis
    using parseOrder_resolved [OF assms] resolvedItems_empty [of "splitOrderItems text"]
    by (metis (no_types, lifting) ParsedOrder.select_convs(1,2,3) option.inject)
qed

lemma splitOrderItems_latte_espresso:
  "splitOrderItems ''1 latte, 1 espresso'' = [''1 latte'', ''1 espresso'']"
  by code_simp

lemma latte_resolved:
  "resolvedMenuItem ''1 latte'' = Some latte"
  "resolvedSize ''1 latte'' = Some \<lparr>name = ''Large'', priceModifier = 1 / 2\<rparr>"
  "resolvedMilk ''1 latte'' = Some \<lparr>name = ''Whole Milk'', priceModifier = 0\<rparr>"
  "resolvedMenuItem ''0 latte'' = Some latte"
  "resolvedSize ''0 latte'' = Some \<lparr>name = ''Large'', priceModifier = 1 / 2\<rparr>"
  "resolvedMilk ''0 latte'' = Some \<lparr>name = ''Whole Milk'', priceModifier = 0\<rparr>"
  by code_simp+

lemma latte_quantity:
  "leadingQuantity ''1 latte'' = Finite 1" "leadingQuantity ''0 latte'' = Finite 0"
proof -
  have "takeWhile isDigit (toLowerCase ''1 latte'') = ''1''" by code_simp
  moreover have "digitsValue ''1'' = 1" by code_simp
  ultimately show "leadingQuantity ''1 latte'' = Finite 1"
    using leadingQuantity_digits [of "''1 latte''" "''1''" 1] by simp
  have "takeWhile isDigit (toLowerCase ''0 latte'') = ''0''" by code_simp
  moreover have "digitsValue ''0'' = 0" by code_simp
  ultimately show "leadingQuantity ''0 latte'' = Finite 0"
    using leadingQuantity_digits [of "''0 latte''" "''0''" 0] by simp
qed

lemma latte_line_total:
  "lineTotal latte \<lparr>name = ''Large'', priceModifier = 1 / 2\<rparr>
     \<lparr>name = ''Whole Milk'', priceModifier = 0\<rparr> (Finite 1) = Finite (9 / 2)"
  "lineTotal latte \<lparr>name = ''Large'', priceModifier = 1 / 2\<rparr>
     \<lparr>name = ''Whole Milk'', priceModifier = 0\<rparr> (Finite 0) = Finite 0"
  by (simp_all add: lineTotal_def latte_def toDouble_prices)

lemma parseOrderItem_1_latte:
  "parseOrderItem ''1 latte'' =
     Inr \<lparr>menuItem = latte, quantity = Finite 1, sizeName = ''Large'', milkType = ''Whole Milk'',
          itemTotal = Finite (9 / 2)\<rparr>"
  using parseOrderItem_resolved [OF latte_resolved(1-3) latte_quantity(1) latte_line_total(1)]
  by simp

lemma parseOrderItem_1_espresso: "parseOrderItem ''1 espresso'' = Inl itemNotFoundError"
proof -
  have "resolvedMenuItem ''1 espresso'' = None" by code_simp
  then show ?thesis by (simp add: parseOrderItem_steps)
qed

lemma itemNotFoundError_text:
  "itemNotFoundError = ''Menu item not found. Available items: Cappuccino, Latte''"
  by code_simp

text \<open>
  C4. For every text that splits into at least one item text, \<open>parseOrder\<close> succeeds
  exactly when some item text is resolved; on success its items are the resolved items
  in the order of the input, the item texts that failed being dropped, and there is no
  error; and no outcome carries an empty list of items.
\<close>

theorem parseOrder_partial_success:
  assumes "splitOrderItems text \<noteq> []"
  shows
    "success (parseOrder text) = (\<exists>t \<in> set (splitOrderItems text). \<exists>it. parseOrderItem t = Inr it) \<and>
     (if success (parseOrder text)
      then parsedItems (parseOrder text) = Some (resolvedItems (splitOrderItems text)) \<and>
           error (parseOrder text) = None
      else parsedItems (parseOrder text) = None) \<and>
     parsedItems (parseOrder text) \<noteq> Some []"
  using assms by (rule parseOrder_success)

theorem parseOrder_partial_success_witness:
  "splitOrderItems ''1 latte, 1 espresso'' \<noteq> [] \<and>
   success (parseOrder ''1 latte, 1 espresso'') \<and>
   parsedItems (parseOrder ''1 latte, 1 espresso'') =
     Some (resolvedItems (splitOrderItems ''1 latte, 1 espresso'')) \<and>
   resolvedItems (splitOrderItems ''1 latte, 1 espresso'') =
     [\<lparr>menuItem = latte, quantity = Finite 1, sizeName = ''Large'', milkType = ''Whole Milk'',
       itemTotal = Finite (9 / 2)\<rparr>] \<and>
   error (parseOrder ''1 latte, 1 espresso'') = None"
proof -
  have h: "splitOrderItems ''1 latte, 1 espresso'' \<noteq> []"
    by (simp add: splitOrderItems_latte_espresso)
  have ex: "\<exists>t \<in> set (splitOrderItems ''1 latte, 1 espresso''). \<exists>it. parseOrderItem t = Inr it"
    by (simp add: splitOrderItems_latte_espresso parseOrderItem_1_latte)
  have res: "resolvedItems (splitOrderItems ''1 latte, 1 espresso'') =
     [\<lparr>menuItem = latte, quantity = Finite 1, sizeName = ''Large'', milkType = ''Whole Milk'',
       itemTotal = Finite (9 / 2)\<rparr>]"
    by (simp add: splitOrderItems_latte_espresso resolvedItems_Cons resolvedItems_Nil
        parseOrderItem_1_latte parseOrderItem_1_espresso)
  from parseOrder_partial_success [OF h] ex
  have "success (parseOrder ''1 latte, 1 espresso'')" by blast
  with parseOrder_partial_success [OF h] h res show ?thesis by simp
qed

section \<open>Resolved items\<close>

lemma findBestMatch_in_dictionary:
  assumes "findBestMatch w d al th = Some m"
  shows "(key m, item m) \<in> set d"
proof -
  let ?P = "\<lambda>e. th < entryScore w al e \<and> (\<forall>e' \<in> set d. entryScore w al e' \<le> entryScore w al e)"
  from assms obtain e es where f: "filter ?P d = e # es"
    and m: "m = \<lparr>key = fst e, item = snd e, score = entryScore w al e\<rparr>"
    by (auto simp: findBestMatch_bestEntry bestEntry_def split: list.splits)
  have "e \<in> set (filter ?P d)" unfolding f by simp
  then have "e \<in> set d" by simp
  then show ?thesis by (simp add: m)
qed

lemma firstWordMatch_Some: "firstWordMatch f ws = Some m \<Longrightarrow> \<exists>w \<in> set ws. f w = Some m"
  by (induction ws) (auto split: option.splits)

lemma parseOrderItem_Inr:
  assumes "parseOrderItem text = Inr it"
  shows "\<exists>mi sz mk. mi \<in> snd ` set menuItems \<and> sz \<in> snd ` set sizes \<and> mk \<in> snd ` set milkTypes \<and>
     it = \<lparr>menuItem = mi, quantity = leadingQuantity text, sizeName = name sz, milkType = name mk,
           itemTotal = lineTotal mi sz mk (leadingQuantity text)\<rparr>"
proof -
  let ?lower = "toLowerCase text"
  let ?words = "splitWhitespace ?lower"
  define menuItem where "menuItem =
     (case firstWordMatch matchMenuWord ?words of
        Some m \<Rightarrow> Some (item m)
      | None \<Rightarrow> map_option snd (find (containsKey ?lower) menuItems))"
  define size where "size =
     (case firstWordMatch matchSizeWord ?words of
        Some m \<Rightarrow> Some (item m)
      | None \<Rightarrow> map_of sizes ''medium'')"
  define milkKey where "milkKey =
     (case find (containsKey ?lower) milkTypes of Some e \<Rightarrow> fst e | None \<Rightarrow> ''whole milk'')"
  define milkKey' where "milkKey' =
     (if milkKey = ''whole milk''
      then (case firstWordMatch matchMilkWord ?words of Some m \<Rightarrow> key m | None \<Rightarrow> milkKey)
      else milkKey)"
  have unfolded: "parseOrderItem text =
     (case menuItem of
        None \<Rightarrow> Inl itemNotFoundError
      | Some mi \<Rightarrow>
          (case (size, map_of milkTypes milkKey') of
             (Some sz, Some milk) \<Rightarrow>
               Inr \<lparr>menuItem = mi, quantity = leadingQuantity text, sizeName = name sz,
                    milkType = name milk,
                    itemTotal = lineTotal mi sz milk (leadingQuantity text)\<rparr>
           | _ \<Rightarrow> Inl itemParseError))"
    by (simp add: parseOrderItem_def Let_def menuItem_def size_def milkKey_def milkKey'_def
        leadingQuantity_def lineTotal_def cong: option.case_cong)
  from assms obtain mi sz mk where mi: "menuItem = Some mi" and sz: "size = Some sz"
    and mk: "map_of milkTypes milkKey' = Some mk"
    and it: "it = \<lparr>menuItem = mi, quantity = leadingQuantity text, sizeName = name sz, milkType = name mk,
           itemTotal = lineTotal mi sz mk (leadingQuantity text)\<rparr>"
    unfolding unfolded by (auto split: option.splits prod.splits)
  have "mi \<in> snd ` set menuItems"
  proof (cases "firstWordMatch matchMenuWord ?words")
    case None
    then obtain e where "find (containsKey ?lower) menuItems = Some e" "mi = snd e"
      using mi by (auto simp: menuItem_def)
    then show ?thesis by (auto simp: find_Some_iff)
  next
    case (Some m)
    then obtain w where "matchMenuWord w = Some m"
      using firstWordMatch_Some by blast
    then have "(key m, item m) \<in> set menuItems"
      by (auto simp: matchMenuWord_def split: if_splits dest: findBestMatch_in_dictionary)
    then show ?thesis using mi Some by (force simp: menuItem_def)
  qed
  moreover have "sz \<in> snd ` set sizes"
  proof (cases "firstWordMatch matchSizeWord ?words")
    case None
    then have "map_of sizes ''medium'' = Some sz" using sz by (simp add: size_def)
    then show ?thesis by (force dest: map_of_SomeD)
  next
    case (Some m)
    then obtain w where "matchSizeWord w = Some m"
      using firstWordMatch_Some by blast
    then have "(key m, item m) \<in> set sizes"
      by (auto simp: matchSizeWord_def dest: findBestMatch_in_dictionary)
    then show ?thesis using sz Some by (force simp: size_def)
  qed
  moreover have "mk \<in> snd ` set milkTypes"
    using mk by (force dest: map_of_SomeD)
  ultimately show ?thesis using it by blast
qed

section \<open>Pricing\<close>

lemma createOrder_amounts:
  "subtotal (createOrder fmt now1 now2 [it] customer) = roundCurrency (jsAdd (Finite 0) (itemTotal it))"
  "tax (createOrder fmt now1 now2 its customer) =
     calculateTax (subtotal (createOrder fmt now1 now2 its customer))"
  "total (createOrder fmt now1 now2 its customer) =
     roundCurrency (jsAdd (subtotal (createOrder fmt now1 now2 its customer))
                      (tax (createOrder fmt now1 now2 its customer)))"
  by (simp_all add: createOrder_def Let_def)

text \<open>The order \<open>1 large cappuccino with oat milk\<close>.\<close>

lemma parseOrderItem_large_cappuccino:
  "parseOrderItem ''1 large cappuccino with oat milk'' =
     Inr \<lparr>menuItem = cappuccino, quantity = Finite 1, sizeName = ''Large'', milkType = ''Oat Milk'',
          itemTotal = Finite (9 / 2)\<rparr>"
proof -
  have "resolvedMenuItem ''1 large cappuccino with oat milk'' = Some cappuccino" by code_simp
  moreover have "resolvedSize ''1 large cappuccino with oat milk'' =
      Some \<lparr>name = ''Large'', priceModifier = 1 / 2\<rparr>" by code_simp
  moreover have "resolvedMilk ''1 large cappuccino with oat milk'' =
      Some \<lparr>name = ''Oat Milk'', priceModifier = 1 / 2\<rparr>" by code_simp
  moreover have "leadingQuantity ''1 large cappuccino with oat milk'' = Finite 1"
  proof -
    have "takeWhile isDigit (toLowerCase ''1 large cappuccino with oat milk'') = ''1''" by code_simp
    moreover have "digitsValue ''1'' = 1" by code_simp
    ultimately show ?thesis
      using leadingQuantity_digits [of "''1 large cappuccino with oat milk''" "''1''" 1] by simp
  qed
  moreover have "lineTotal cappuccino \<lparr>name = ''Large'', priceModifier = 1 / 2\<rparr>
      \<lparr>name = ''Oat Milk'', priceModifier = 1 / 2\<rparr> (Finite 1) = Finite (9 / 2)"
    by (simp add: lineTotal_def cappuccino_def toDouble_prices)
  ultimately show ?thesis
    using parseOrderItem_resolved [of "''1 large cappuccino with oat milk''"] by simp
qed

lemma splitOrderItems_large_cappuccino:
  "splitOrderItems ''1 large cappuccino with oat milk'' = [''1 large cappuccino with oat milk'']"
  by code_simp

lemma parseOrder_large_cappuccino:
  "parseOrder ''1 large cappuccino with oat milk'' =
     \<lparr>success = True,
      parsedItems = Some [\<lparr>menuItem = cappuccino, quantity = Finite 1, sizeName = ''Large'',
                           milkType = ''Oat Milk'', itemTotal = Finite (9 / 2)\<rparr>],
      error = None\<rparr>"
  by (simp add: parseOrder_def splitOrderItems_large_cappuccino collectItem_def
      parseOrderItem_large_cappuccino)

lemma taxRate_value: "toDouble (85 / 1000) = Finite (6124895493223875 / 72057594037927936)"
  by (rule toDouble_value [where e = "- 4" and m = 6124895493223875]) simp_all

lemma small_subtotal: "roundCurrency (Finite (9 / 2)) = Finite (9 / 2)"
proof (rule roundCurrency_value [where p = "450" and r = "450"])
  show "toDouble (9 / 2 * 100) = Finite 450"
    by (rule toDouble_value [where e = 8 and m = 7916483719987200]) simp_all
  show "\<lfloor>450 + 1 / 2 :: rat\<rfloor> = 450"
    by (rule floor_unique) simp_all
  show "toDouble (of_int 450 / 100) = Finite (9 / 2)"
    by (rule toDouble_value [where e = 2 and m = 5066549580791808]) simp_all
qed

lemma small_tax_rounded: "roundCurrency (Finite (6890507429876859 / 18014398509481984)) = Finite (3422735716801577 / 9007199254740992)"
proof (rule roundCurrency_value [where p = "153 / 4" and r = "38"])
  show "toDouble (6890507429876859 / 18014398509481984 * 100) = Finite (153 / 4)"
    by (rule toDouble_value [where e = 5 and m = 5383208929591296]) simp_all
  show "\<lfloor>153 / 4 + 1 / 2 :: rat\<rfloor> = 38"
    by (rule floor_unique) simp_all
  show "toDouble (of_int 38 / 100) = Finite (3422735716801577 / 9007199254740992)"
    by (rule toDouble_value [where e = "- 2" and m = 6845471433603154]) simp_all
qed

lemma small_tax: "calculateTax (Finite (9 / 2)) = Finite (3422735716801577 / 9007199254740992)"
proof (rule calculateTax_value [where t = "6124895493223875 / 72057594037927936" and b = "6890507429876859 / 18014398509481984"])
  show "toDouble (85 / 1000) = Finite (6124895493223875 / 72057594037927936)"
    by (rule taxRate_value)
  show "toDouble (9 / 2 * (6124895493223875 / 72057594037927936)) = Finite (6890507429876859 / 18014398509481984)"
    by (rule toDouble_value [where e = "- 2" and m = 6890507429876859]) simp_all
  show "roundCurrency (Finite (6890507429876859 / 18014398509481984)) = Finite (3422735716801577 / 9007199254740992)"
    by (rule small_tax_rounded)
qed

lemma small_sum: "jsAdd (Finite (9 / 2)) (Finite (3422735716801577 / 9007199254740992)) = Finite (5494391545392005 / 1125899906842624)"
proof -
  have "toDouble (9 / 2 + 3422735716801577 / 9007199254740992) = Finite (5494391545392005 / 1125899906842624)"
    by (rule toDouble_value [where e = 2 and m = 5494391545392005]) simp_all
  then show ?thesis by (simp only: jsAdd.simps)
qed

lemma small_total: "roundCurrency (Finite (5494391545392005 / 1125899906842624)) = Finite (5494391545392005 / 1125899906842624)"
proof (rule roundCurrency_value [where p = "488" and r = "488"])
  show "toDouble (5494391545392005 / 1125899906842624 * 100) = Finite 488"
    by (rule toDouble_value [where e = 8 and m = 8584986789675008]) simp_all
  show "\<lfloor>488 + 1 / 2 :: rat\<rfloor> = 488"
    by (rule floor_unique) simp_all
  show "toDouble (of_int 488 / 100) = Finite (5494391545392005 / 1125899906842624)"
    by (rule toDouble_value [where e = 2 and m = 5494391545392005]) simp_all
qed

text \<open>The order \<open>9265158239323 cappuccino\<close>.\<close>

lemma many_line_total: "toDouble (64856107675261 / 2) = Finite (64856107675261 / 2)"
  using toDouble_exact [of 64856107675261 1] by simp

lemma parseOrderItem_many_cappuccinos:
  "parseOrderItem ''9265158239323 cappuccino'' =
     Inr \<lparr>menuItem = cappuccino, quantity = Finite 9265158239323, sizeName = ''Medium'',
          milkType = ''Whole Milk'', itemTotal = Finite (64856107675261 / 2)\<rparr>"
proof -
  have "resolvedMenuItem ''9265158239323 cappuccino'' = Some cappuccino" by code_simp
  moreover have "resolvedSize ''9265158239323 cappuccino'' =
      Some \<lparr>name = ''Medium'', priceModifier = 0\<rparr>" by code_simp
  moreover have "resolvedMilk ''9265158239323 cappuccino'' =
      Some \<lparr>name = ''Whole Milk'', priceModifier = 0\<rparr>" by code_simp
  moreover have "leadingQuantity ''9265158239323 cappuccino'' = Finite 9265158239323"
  proof -
    have "takeWhile isDigit (toLowerCase ''9265158239323 cappuccino'') = ''9265158239323''"
      by code_simp
    moreover have "digitsValue ''9265158239323'' = 9265158239323" by code_simp
    ultimately show ?thesis
      using leadingQuantity_digits [of "''9265158239323 cappuccino''" "''9265158239323''" 9265158239323]
      by simp
  qed
  moreover have "lineTotal cappuccino \<lparr>name = ''Medium'', priceModifier = 0\<rparr>
      \<lparr>name = ''Whole Milk'', priceModifier = 0\<rparr> (Finite 9265158239323) =
      Finite (64856107675261 / 2)"
    by (simp add: lineTotal_def cappuccino_def toDouble_prices many_line_total)
  ultimately show ?thesis
    using parseOrderItem_resolved [of "''9265158239323 cappuccino''"] by simp
qed

lemma splitOrderItems_many_cappuccinos:
  "splitOrderItems ''9265158239323 cappuccino'' = [''9265158239323 cappuccino'']"
  by code_simp

lemma parseOrder_many_cappuccinos:
  "parseOrder ''9265158239323 cappuccino'' =
     \<lparr>success = True,
      parsedItems = Some [\<lparr>menuItem = cappuccino, quantity = Finite 9265158239323,
                           sizeName = ''Medium'', milkType = ''Whole Milk'',
                           itemTotal = Finite (64856107675261 / 2)\<rparr>],
      error = None\<rparr>"
  by (simp add: parseOrder_def splitOrderItems_many_cappuccinos collectItem_def
      parseOrderItem_many_cappuccinos)

lemma large_subtotal: "roundCurrency (Finite (64856107675261 / 2)) = Finite (64856107675261 / 2)"
proof (rule roundCurrency_value [where p = "3242805383763050" and r = "3242805383763050"])
  show "toDouble (64856107675261 / 2 * 100) = Finite 3242805383763050"
    by (rule toDouble_value [where e = 51 and m = 6485610767526100]) simp_all
  show "\<lfloor>3242805383763050 + 1 / 2 :: rat\<rfloor> = 3242805383763050"
    by (rule floor_unique) simp_all
  show "toDouble (of_int 3242805383763050 / 100) = Finite (64856107675261 / 2)"
    by (rule toDouble_value [where e = 44 and m = 8301581782433408]) simp_all
qed

lemma large_tax_rounded: "roundCurrency (Finite (2822537806027359 / 1024)) = Finite (705634451506839 / 256)"
proof (rule roundCurrency_value [where p = "8820430643835497 / 32" and r = "275638457619859"])
  show "toDouble (2822537806027359 / 1024 * 100) = Finite (8820430643835497 / 32)"
    by (rule toDouble_value [where e = 47 and m = 8820430643835497]) simp_all
  show "\<lfloor>8820430643835497 / 32 + 1 / 2 :: rat\<rfloor> = 275638457619859"
    by (rule floor_unique) simp_all
  show "toDouble (of_int 275638457619859 / 100) = Finite (705634451506839 / 256)"
    by (rule toDouble_value [where e = 41 and m = 5645075612054712]) simp_all
qed

lemma large_tax: "calculateTax (Finite (64856107675261 / 2)) = Finite (705634451506839 / 256)"
proof (rule calculateTax_value [where t = "6124895493223875 / 72057594037927936" and b = "2822537806027359 / 1024"])
  show "toDouble (85 / 1000) = Finite (6124895493223875 / 72057594037927936)"
    by (rule taxRate_value)
  show "toDouble (64856107675261 / 2 * (6124895493223875 / 72057594037927936)) = Finite (2822537806027359 / 1024)"
    by (rule toDouble_value [where e = 41 and m = 5645075612054718]) simp_all
  show "roundCurrency (Finite (2822537806027359 / 1024)) = Finite (705634451506839 / 256)"
    by (rule large_tax_rounded)
qed

lemma large_sum: "jsAdd (Finite (64856107675261 / 2)) (Finite (705634451506839 / 256)) = Finite (1125902029242531 / 32)"
proof -
  have "toDouble (64856107675261 / 2 + 705634451506839 / 256) = Finite (1125902029242531 / 32)"
    by (rule toDouble_tie [where e = 45 and f = 4503608116970123]) simp_all
  then show ?thesis by (simp only: jsAdd.simps)
qed

lemma large_total: "roundCurrency (Finite (1125902029242531 / 32)) = Finite (4503608116970125 / 128)"
proof (rule roundCurrency_value [where p = "7036887682765819 / 2" and r = "3518443841382910"])
  show "toDouble (1125902029242531 / 32 * 100) = Finite (7036887682765819 / 2)"
    by (rule toDouble_value [where e = 51 and m = 7036887682765819]) simp_all
  show "\<lfloor>7036887682765819 / 2 + 1 / 2 :: rat\<rfloor> = 3518443841382910"
    by (rule floor_unique) simp_all
  show "toDouble (of_int 3518443841382910 / 100) = Finite (4503608116970125 / 128)"
    by (rule toDouble_value [where e = 45 and m = 4503608116970125]) simp_all
qed

text \<open>The doubles nearest to the amounts in cents.\<close>

lemma decimal_450: "toDouble (450 / 100) = Finite (9 / 2)"
  by (rule toDouble_value [where e = 2 and m = 5066549580791808]) simp_all

lemma decimal_38: "toDouble (38 / 100) = Finite (3422735716801577 / 9007199254740992)"
  by (rule toDouble_value [where e = "- 2" and m = 6845471433603154]) simp_all

lemma decimal_488: "toDouble (488 / 100) = Finite (5494391545392005 / 1125899906842624)"
  by (rule toDouble_value [where e = 2 and m = 5494391545392005]) simp_all

lemma decimal_large_subtotal: "toDouble (3242805383763050 / 100) = Finite (64856107675261 / 2)"
  by (rule toDouble_value [where e = 44 and m = 8301581782433408]) simp_all

lemma decimal_large_tax: "toDouble (275638457619859 / 100) = Finite (705634451506839 / 256)"
  by (rule toDouble_value [where e = 41 and m = 5645075612054712]) simp_all

lemma decimal_large_total: "toDouble (3518443841382910 / 100) = Finite (4503608116970125 / 128)"
  by (rule toDouble_value [where e = 45 and m = 4503608116970125]) simp_all

lemma decimal_large_sum: "toDouble (3518443841382909 / 100) = Finite (1125902029242531 / 32)"
  by (rule toDouble_value [where e = 45 and m = 4503608116970124]) simp_all

text \<open>
  C1. The specification requires the total of an order to be its subtotal plus its
  tax, for every list of resolved items. The code computes the amounts in doubles of
  the currency unit and rounds each to cents by \<open>Math.round(amount * 100) / 100\<close>. The
  order \<open>1 large cappuccino with oat milk\<close> prices to 4.50, 0.38 and 4.88, as the
  specification says. The order \<open>9265158239323 cappuccino\<close> has the line total and
  subtotal 32428053837630.50 and the tax 2756384576198.59, and the total
  35184438413829.10, one cent more than their sum 35184438413829.09: the sum of the two
  doubles is the double nearest to 35184438413829.09, its product with 100 is rounded
  to the double 3518443841382909.5, and \<open>Math.round\<close> sends that to 3518443841382910.
\<close>

theorem createOrder_total_one_cent_over:
  "parseOrder ''1 large cappuccino with oat milk'' =
     \<lparr>success = True,
      parsedItems = Some [\<lparr>menuItem = cappuccino, quantity = Finite 1, sizeName = ''Large'',
                           milkType = ''Oat Milk'', itemTotal = Finite (9 / 2)\<rparr>],
      error = None\<rparr> \<and>
   (let order = createOrder fmt now1 now2
                  [\<lparr>menuItem = cappuccino, quantity = Finite 1, sizeName = ''Large'',
                    milkType = ''Oat Milk'', itemTotal = Finite (9 / 2)\<rparr>] customer
    in subtotal order = toDouble (450 / 100) \<and>
       tax order = toDouble (38 / 100) \<and>
       total order = toDouble (488 / 100)) \<and>
   parseOrder ''9265158239323 cappuccino'' =
     \<lparr>success = True,
      parsedItems = Some [\<lparr>menuItem = cappuccino, quantity = Finite 9265158239323,
                           sizeName = ''Medium'', milkType = ''Whole Milk'',
                           itemTotal = Finite (64856107675261 / 2)\<rparr>],
      error = None\<rparr> \<and>
   (let order = createOrder fmt now1 now2
                  [\<lparr>menuItem = cappuccino, quantity = Finite 9265158239323,
                    sizeName = ''Medium'', milkType = ''Whole Milk'',
                    itemTotal = Finite (64856107675261 / 2)\<rparr>] customer
    in subtotal order = toDouble (3242805383763050 / 100) \<and>
       tax order = toDouble (275638457619859 / 100) \<and>
       total order = toDouble (3518443841382910 / 100) \<and>
       jsAdd (subtotal order) (tax order) = toDouble (3518443841382909 / 100) \<and>
       total order \<noteq> jsAdd (subtotal order) (tax order)) \<and>
   (3242805383763050 / 100 + 275638457619859 / 100 :: rat) = 3518443841382909 / 100 \<and>
   toDouble (3518443841382910 / 100) \<noteq> toDouble (3518443841382909 / 100)"
proof -
  define small where "small = createOrder fmt now1 now2
      [\<lparr>menuItem = cappuccino, quantity = Finite 1, sizeName = ''Large'',
        milkType = ''Oat Milk'', itemTotal = Finite (9 / 2)\<rparr>] customer"
  define large where "large = createOrder fmt now1 now2
      [\<lparr>menuItem = cappuccino, quantity = Finite 9265158239323,
        sizeName = ''Medium'', milkType = ''Whole Milk'',
        itemTotal = Finite (64856107675261 / 2)\<rparr>] customer"
  have s1: "subtotal small = Finite (9 / 2)"
    unfolding small_def createOrder_amounts(1)
    by (simp add: toDouble_prices small_subtotal)
  have s2: "tax small = Finite (3422735716801577 / 9007199254740992)"
    unfolding small_def createOrder_amounts(2) s1 [unfolded small_def] by (rule small_tax)
  have s3: "total small = Finite (5494391545392005 / 1125899906842624)"
    unfolding small_def createOrder_amounts(3) s1 [unfolded small_def] s2 [unfolded small_def]
      small_sum by (rule small_total)
  have l1: "subtotal large = Finite (64856107675261 / 2)"
    unfolding large_def createOrder_amounts(1)
    by (simp add: many_line_total large_subtotal)
  have l2: "tax large = Finite (705634451506839 / 256)"
    unfolding large_def createOrder_amounts(2) l1 [unfolded large_def] by (rule large_tax)
  have l3: "total large = Finite (4503608116970125 / 128)"
    unfolding large_def createOrder_amounts(3) l1 [unfolded large_def] l2 [unfolded large_def]
      large_sum by (rule large_total)
  have l4: "jsAdd (subtotal large) (tax large) = Finite (1125902029242531 / 32)"
    unfolding l1 l2 by (rule large_sum)
  have small: "subtotal small = toDouble (450 / 100)" "tax small = toDouble (38 / 100)"
    "total small = toDouble (488 / 100)"
    unfolding s1 s2 s3 decimal_450 decimal_38 decimal_488 by (rule refl)+
  have large: "subtotal large = toDouble (3242805383763050 / 100)"
    "tax large = toDouble (275638457619859 / 100)"
    "total large = toDouble (3518443841382910 / 100)"
    unfolding l1 l2 l3 decimal_large_subtotal decimal_large_tax decimal_large_total
    by (rule refl)+
  have sum: "jsAdd (subtotal large) (tax large) = toDouble (3518443841382909 / 100)"
    unfolding l4 decimal_large_sum by (rule refl)
  have off: "total large \<noteq> jsAdd (subtotal large) (tax large)"
    unfolding l4 l3 by simp
  have cents: "(3242805383763050 / 100 + 275638457619859 / 100 :: rat) = 3518443841382909 / 100"
    by simp
  have differ: "toDouble (3518443841382910 / 100) \<noteq> toDouble (3518443841382909 / 100)"
    unfolding decimal_large_total decimal_large_sum by simp
  show ?thesis
    unfolding Let_def
    using parseOrder_large_cappuccino parseOrder_many_cappuccinos
      small [unfolded small_def] large [unfolded large_def] sum [unfolded large_def]
      off [unfolded large_def] cents differ
    by (intro conjI) blast+
qed

section \<open>Scenarios\<close>

text \<open>
  C8. For the input \<open>1 espresso\<close> and the shipped menu, \<open>parseOrder\<close> fails with the
  item-not-found message, which lists the names Cappuccino and Latte of the menu as the
  available items. An outcome of \<open>parseOrder\<close> has no field for the kind of error: the
  kind is the message.
\<close>

theorem parseOrder_espresso:
  "parseOrder ''1 espresso'' =
     \<lparr>success = False, parsedItems = None,
      error = Some (''Failed to parse order: '' @ itemNotFoundError)\<rparr> \<and>
   itemNotFoundError = ''Menu item not found. Available items: Cappuccino, Latte'' \<and>
   map (itemName \<circ> snd) menuItems = [''Cappuccino'', ''Latte'']"
proof -
  have "splitOrderItems ''1 espresso'' = [''1 espresso'']" by code_simp
  then have "parseOrder ''1 espresso'' =
     \<lparr>success = False, parsedItems = None,
      error = Some (''Failed to parse order: '' @ itemNotFoundError)\<rparr>"
    by (simp add: parseOrder_def collectItem_def parseOrderItem_1_espresso itemNotFoundError_text)
  moreover have "map (itemName \<circ> snd) menuItems = [''Cappuccino'', ''Latte'']"
    by (simp add: menuItems_def cappuccino_def latte_def)
  ultimately show ?thesis by (simp add: itemNotFoundError_text)
qed

text \<open>
  C10. The item text \<open>1 latte\<close> has no size word, and the item interpreter gives it
  the size Large and the line total 4.50, not the default Medium at 4.00: the key \<open>l\<close>
  of the size dictionary is contained in the word \<open>latte\<close>, so it scores 0.9, which
  exceeds the threshold 0.7.
\<close>

theorem parseOrderItem_latte_large:
  "parseOrderItem ''1 latte'' =
     Inr \<lparr>menuItem = latte, quantity = Finite 1, sizeName = ''Large'', milkType = ''Whole Milk'',
          itemTotal = Finite (9 / 2)\<rparr> \<and>
   set (splitWhitespace (toLowerCase ''1 latte'')) \<inter> fst ` set sizes = {} \<and>
   includesStr ''latte'' ''l'' \<and>
   calculateSimilarity ''latte'' ''l'' = Some (9 / 10) \<and>
   defaultThreshold < 9 / 10 \<and>
   matchSizeWord ''latte'' =
     Some \<lparr>key = ''l'', item = \<lparr>name = ''Large'', priceModifier = 1 / 2\<rparr>, score = 9 / 10\<rparr> \<and>
   map_of sizes ''medium'' = Some \<lparr>name = ''Medium'', priceModifier = 0\<rparr> \<and>
   basePrice latte + 0 + 0 = 4"
proof -
  have "splitWhitespace (toLowerCase ''1 latte'') = [''1'', ''latte'']" by code_simp
  then have "set (splitWhitespace (toLowerCase ''1 latte'')) \<inter> fst ` set sizes = {}"
    by (simp add: sizes_def)
  moreover have "includesStr ''latte'' ''l''" by code_simp
  moreover have "calculateSimilarity ''latte'' ''l'' = Some (9 / 10)" by code_simp
  moreover have "matchSizeWord ''latte'' =
     Some \<lparr>key = ''l'', item = \<lparr>name = ''Large'', priceModifier = 1 / 2\<rparr>, score = 9 / 10\<rparr>"
    by code_simp
  moreover have "map_of sizes ''medium'' = Some \<lparr>name = ''Medium'', priceModifier = 0\<rparr>"
    by (simp add: sizes_def)
  ultimately show ?thesis
    by (simp add: parseOrderItem_1_latte defaultThreshold_def latte_def)
qed

text \<open>
  C7. The specification requires the quantity of a resolved item to be a positive
  integer. It is the leading run of digits, or 1 (\<open>parseOrderItem_Inr\<close>), and the run
  of digits may be \<open>0\<close>: the item text \<open>0 latte\<close> resolves to an item of quantity 0.
\<close>

theorem parseOrderItem_zero_quantity:
  "parseOrderItem ''0 latte'' =
     Inr \<lparr>menuItem = latte, quantity = Finite 0, sizeName = ''Large'', milkType = ''Whole Milk'',
          itemTotal = Finite 0\<rparr>"
  using parseOrderItem_resolved [OF latte_resolved(4-6) latte_quantity(2) latte_line_total(2)]
  by simp

subsection \<open>Texts without a separator, blank texts\<close>

lemma includesStr_member:
  "includesStr text sep \<Longrightarrow> c \<in> set sep \<Longrightarrow> c \<in> set text"
  by (auto simp: includesStr_sublist sublist_def)

lemma splitOrderItems_no_separator:
  assumes "\<forall>sep \<in> set separators. \<not> includesStr text sep"
  shows "splitOrderItems text = [text]"
  using assms by (simp add: splitOrderItems_def separators_def splitStep_def)

lemma blank_no_separator:
  assumes "\<forall>c \<in> set text. isWhitespace c"
  shows "\<forall>sep \<in> set separators. \<not> includesStr text sep"
proof -
  have "\<not> isWhitespace CHR '',''" "\<not> isWhitespace CHR ''a''" "\<not> isWhitespace CHR '';''"
    "\<not> isWhitespace CHR ''+''"
    by (simp_all add: isWhitespace_def)
  then have "\<not> includesStr text '',''" "\<not> includesStr text '' and ''" "\<not> includesStr text '';''"
    "\<not> includesStr text ''+''"
    using assms includesStr_member [of "text" "'',''" "CHR '',''"]
      includesStr_member [of "text" "'' and ''" "CHR ''a''"]
      includesStr_member [of "text" "'';''" "CHR '';''"]
      includesStr_member [of "text" "''+''" "CHR ''+''"]
    by auto
  then show ?thesis by (simp add: separators_def)
qed

lemma lowerChar_whitespace: "isWhitespace c \<Longrightarrow> lowerChar c = c"
  by (auto simp: isWhitespace_def lowerChar_def)

lemma toLowerCase_blank:
  assumes "\<forall>c \<in> set text. isWhitespace c"
  shows "toLowerCase text = text"
  using assms by (induction "text") (simp_all add: toLowerCase_def lowerChar_whitespace)

lemma splitWhitespace_blank:
  assumes "\<forall>c \<in> set text. isWhitespace c"
  shows "splitWhitespace text = (if text = [] then [[]] else [[], []])"
proof (cases "text")
  case Nil
  then show ?thesis by (simp add: splitWhitespace_def)
next
  case (Cons c cs)
  then have d: "dropWhile isWhitespace cs = []" and w: "isWhitespace c" using assms by simp_all
  have "splitWsFrom (c # cs) [] = [] # splitWsFrom (dropWhile isWhitespace cs) []"
    using w by simp
  also have "\<dots> = [[], []]" unfolding d by simp
  finally show ?thesis using Cons by (simp add: splitWhitespace_def)
qed

lemma parseOrderItem_blank:
  assumes "\<forall>c \<in> set text. isWhitespace c"
  shows "parseOrderItem text = Inl itemNotFoundError"
proof -
  have words: "firstWordMatch matchMenuWord (splitWhitespace text) = None"
    by (simp add: splitWhitespace_blank [OF assms] matchMenuWord_def)
  have "\<not> isWhitespace CHR ''c''" "\<not> isWhitespace CHR ''l''"
    by (simp_all add: isWhitespace_def)
  then have "\<not> includesStr text ''cappuccino''" "\<not> includesStr text ''latte''"
    using assms includesStr_member [of "text" "''cappuccino''" "CHR ''c''"]
      includesStr_member [of "text" "''latte''" "CHR ''l''"]
    by auto
  then have "find (containsKey text) menuItems = None"
    by (simp add: menuItems_def containsKey_def)
  then show ?thesis
    by (simp add: parseOrderItem_def Let_def toLowerCase_blank [OF assms] words)
qed

lemma parseOrder_blank_text:
  assumes "\<forall>c \<in> set text. isWhitespace c"
  shows "parseOrder text =
     \<lparr>success = False, parsedItems = None,
      error = Some (''Failed to parse order: '' @ itemNotFoundError)\<rparr>"
proof -
  have "splitOrderItems text = [text]"
    using assms by (intro splitOrderItems_no_separator blank_no_separator)
  moreover have "itemNotFoundError \<noteq> []" by (simp add: itemNotFoundError_def)
  ultimately show ?thesis
    by (simp add: parseOrder_def collectItem_def parseOrderItem_blank [OF assms])
qed

text \<open>
  C2. The specification requires every element that \<open>splitOrderItems\<close> returns to be
  non-empty and trimmed, and the result to be empty for a blank input. A text that
  contains none of the separators is returned as it is
  (\<open>splitOrderItems_no_separator\<close>): the empty text as one empty element, a blank
  text and a text with spaces around it unchanged. Only the pieces of a text that
  contains a separator are trimmed and filtered.
\<close>

theorem splitOrderItems_untrimmed:
  "splitOrderItems '''' = [''''] \<and>
   splitOrderItems ''   '' = [''   ''] \<and>
   splitOrderItems '' 1 latte '' = ['' 1 latte ''] \<and>
   splitOrderItems '' 1 latte , 1 cappuccino '' = [''1 latte'', ''1 cappuccino'']"
  by code_simp

text \<open>
  C3. The specification requires \<open>parseOrder\<close> to answer an empty or blank text with
  the request to specify at least one item. \<open>splitOrderItems\<close> returns such a text as
  one item text, so \<open>parseOrder\<close> answers with the item-not-found message, for every
  blank text (\<open>parseOrder_blank_text\<close>); the request to specify an item is the answer
  to a text such as a lone comma.
\<close>

theorem parseOrder_blank:
  "parseOrder '''' =
     \<lparr>success = False, parsedItems = None,
      error = Some ''Failed to parse order: Menu item not found. Available items: Cappuccino, Latte''\<rparr> \<and>
   parseOrder ''   '' =
     \<lparr>success = False, parsedItems = None,
      error = Some ''Failed to parse order: Menu item not found. Available items: Cappuccino, Latte''\<rparr> \<and>
   parseOrder '','' =
     \<lparr>success = False, parsedItems = None,
      error = Some ''Please specify at least one item to order.''\<rparr>"
  by code_simp

end
